theory Spec2Isabelle
  imports Complex_Main
begin

section \<open>Python strings\<close>

text \<open>
  The search engine of \<^verbatim>\<open>app/search/hybrid_search.py\<close> works on Python \<^verbatim>\<open>str\<close> values
  with \<^verbatim>\<open>lower\<close>, \<^verbatim>\<open>strip\<close>, \<^verbatim>\<open>split\<close>, \<^verbatim>\<open>count\<close>, \<^verbatim>\<open>find\<close>, \<^verbatim>\<open>replace\<close>, the
  operator \<^verbatim>\<open>in\<close> and one regular expression. Strings are modelled as lists of ASCII
  characters; the functions below follow the documented behaviour of the Python string
  methods on ASCII text. Python floats are modelled as real numbers.
\<close>

definition is_upper :: "char \<Rightarrow> bool" where
  "is_upper c = (65 \<le> (of_char c :: nat) \<and> (of_char c :: nat) \<le> 90)"

definition lower_char :: "char \<Rightarrow> char" where
  "lower_char c = (if is_upper c then char_of ((of_char c :: nat) + 32) else c)"

text \<open>\<^verbatim>\<open>s.lower()\<close>\<close>

definition str_lower :: "string \<Rightarrow> string" where
  "str_lower s = map lower_char s"

text \<open>
  The ASCII characters for which \<^verbatim>\<open>str.isspace\<close> holds: tab, line feed, vertical tab, form
  feed, carriage return, the four separators 28 to 31, and the space.
\<close>

definition is_space :: "char \<Rightarrow> bool" where
  "is_space c = ((9 \<le> (of_char c :: nat) \<and> (of_char c :: nat) \<le> 13)
     \<or> (28 \<le> (of_char c :: nat) \<and> (of_char c :: nat) \<le> 32))"

text \<open>\<^verbatim>\<open>s.strip()\<close>\<close>

definition str_strip :: "string \<Rightarrow> string" where
  "str_strip s = rev (dropWhile is_space (rev (dropWhile is_space s)))"

text \<open>
  \<^verbatim>\<open>s.split()\<close> with no argument: the maximal runs of characters that are not white
  space, in order. The first argument is the word read so far.
\<close>

fun split_from :: "string \<Rightarrow> string \<Rightarrow> string list" where
  "split_from cur [] = (if cur = [] then [] else [cur])"
| "split_from cur (c # cs) =
     (if is_space c then (if cur = [] then split_from [] cs else cur # split_from [] cs)
      else split_from (cur @ [c]) cs)"

definition str_split :: "string \<Rightarrow> string list" where
  "str_split s = split_from [] s"

text \<open>\<^verbatim>\<open>s.startswith(p)\<close>, written with the prefix first.\<close>

fun is_prefix :: "string \<Rightarrow> string \<Rightarrow> bool" where
  "is_prefix [] s = True"
| "is_prefix (p # ps) [] = False"
| "is_prefix (p # ps) (c # cs) = (p = c \<and> is_prefix ps cs)"

text \<open>\<^verbatim>\<open>sub in s\<close>\<close>

fun str_contains :: "string \<Rightarrow> string \<Rightarrow> bool" where
  "str_contains [] sub = (sub = [])"
| "str_contains (c # cs) sub = (is_prefix sub (c # cs) \<or> str_contains cs sub)"

text \<open>
  \<^verbatim>\<open>s.count(sub)\<close>: the number of occurrences of \<^verbatim>\<open>sub\<close> that do not overlap, read from
  the left. After an occurrence at \<^verbatim>\<open>c # cs\<close> the scan resumes \<^verbatim>\<open>len(sub)\<close> characters
  on, that is \<^verbatim>\<open>len(sub) - 1\<close> characters into \<^verbatim>\<open>cs\<close>. For the empty \<^verbatim>\<open>sub\<close> Python
  returns \<^verbatim>\<open>len(s) + 1\<close>.
\<close>

fun count_from :: "string \<Rightarrow> string \<Rightarrow> nat" where
  "count_from [] sub = 0"
| "count_from (c # cs) sub =
     (if is_prefix sub (c # cs) then 1 + count_from (drop (length sub - 1) cs) sub
      else count_from cs sub)"

definition str_count :: "string \<Rightarrow> string \<Rightarrow> nat" where
  "str_count s sub = (if sub = [] then length s + 1 else count_from s sub)"

text \<open>\<^verbatim>\<open>s.find(sub)\<close>: the index of the first occurrence, or \<^verbatim>\<open>-1\<close>.\<close>

fun find_from :: "nat \<Rightarrow> string \<Rightarrow> string \<Rightarrow> int" where
  "find_from i [] sub = (if sub = [] then int i else - 1)"
| "find_from i (c # cs) sub =
     (if is_prefix sub (c # cs) then int i else find_from (Suc i) cs sub)"

definition str_find :: "string \<Rightarrow> string \<Rightarrow> int" where
  "str_find s sub = find_from 0 s sub"

text \<open>
  \<^verbatim>\<open>s.replace(old, new)\<close>: every occurrence of \<^verbatim>\<open>old\<close> that does not overlap an earlier
  one, read from the left. For the empty \<^verbatim>\<open>old\<close> Python puts \<^verbatim>\<open>new\<close> before every
  character and at the end.
\<close>

fun replace_from :: "string \<Rightarrow> string \<Rightarrow> string \<Rightarrow> string" where
  "replace_from [] old new = []"
| "replace_from (c # cs) old new =
     (if is_prefix old (c # cs) then new @ replace_from (drop (length old - 1) cs) old new
      else c # replace_from cs old new)"

definition str_replace :: "string \<Rightarrow> string \<Rightarrow> string \<Rightarrow> string" where
  "str_replace s old new =
     (if old = [] then new @ concat (map (\<lambda>c. c # new) s) else replace_from s old new)"

text \<open>
  The character class \<^verbatim>\<open>[\w\-]\<close> on ASCII text: letters, digits, the underscore and the
  hyphen.
\<close>

definition name_char :: "char \<Rightarrow> bool" where
  "name_char c =
     ((48 \<le> (of_char c :: nat) \<and> (of_char c :: nat) \<le> 57)
      \<or> (65 \<le> (of_char c :: nat) \<and> (of_char c :: nat) \<le> 90)
      \<or> (97 \<le> (of_char c :: nat) \<and> (of_char c :: nat) \<le> 122)
      \<or> c = CHR ''_'' \<or> c = CHR ''-'')"

text \<open>
  \<^verbatim>\<open>re.findall(r'([\w\-]+\.pdf)', s)\<close>. The engine tries each start position from the
  left. At a position the class takes the longest run of name characters; the run must
  be followed by \<^verbatim>\<open>.pdf\<close>, and a shorter run cannot be, since the character after it is a
  name character and not the dot. A match is the run with \<^verbatim>\<open>.pdf\<close>; the scan resumes
  after the match, or at the next position when there is none.
\<close>

function findall_pdf :: "string \<Rightarrow> string list" where
  "findall_pdf [] = []"
| "findall_pdf (c # cs) =
     (if name_char c \<and> is_prefix ''.pdf'' (dropWhile name_char (c # cs))
      then (takeWhile name_char (c # cs) @ ''.pdf'')
             # findall_pdf (drop 4 (dropWhile name_char (c # cs)))
      else findall_pdf cs)"
  by pat_completeness auto
termination
proof (relation "measure length")
  show "wf (measure length)" by simp
next
  fix c :: char and cs :: string
  assume a: "name_char c \<and> is_prefix ''.pdf'' (dropWhile name_char (c # cs))"
  then have "dropWhile name_char (c # cs) = dropWhile name_char cs"
    by simp
  moreover have "length (drop 4 (dropWhile name_char cs)) \<le> length (dropWhile name_char cs)"
    by simp
  moreover have "length (dropWhile name_char cs) \<le> length cs"
    by (rule length_dropWhile_le)
  ultimately have "length (drop 4 (dropWhile name_char (c # cs))) < length (c # cs)"
    by simp
  then show "(drop 4 (dropWhile name_char (c # cs)), c # cs) \<in> measure length"
    by simp
next
  fix c :: char and cs :: string
  show "(cs, c # cs) \<in> measure length" by simp
qed


section \<open>Data model\<close>

text \<open>
  Values of a chunk's metadata dictionary (\<^verbatim>\<open>Dict[str, Any]\<close>): the loaders and the result
  enricher store strings, lists (navigation links) and dictionaries (\<^verbatim>\<open>site_common\<close>).
\<close>

datatype pyval =
    PNone
  | PStr string
  | PBool bool
  | PInt int
  | PList "pyval list"
  | PDict "(string \<times> pyval) list"

text \<open>Python's truth value of an object.\<close>

fun truthy :: "pyval \<Rightarrow> bool" where
  "truthy PNone = False"
| "truthy (PStr s) = (s \<noteq> [])"
| "truthy (PBool b) = b"
| "truthy (PInt i) = (i \<noteq> 0)"
| "truthy (PList xs) = (xs \<noteq> [])"
| "truthy (PDict kvs) = (kvs \<noteq> [])"

text \<open>\<^verbatim>\<open>d.get(key)\<close>: \<^verbatim>\<open>None\<close> for a missing key.\<close>

definition dict_get :: "(string \<rightharpoonup> pyval) \<Rightarrow> string \<Rightarrow> pyval" where
  "dict_get d key = (case d key of None \<Rightarrow> PNone | Some v \<Rightarrow> v)"

datatype error =
    ValueError string
  | AttributeError string
  | BackendError string

text \<open>\<^verbatim>\<open>v.lower()\<close> on a metadata value: only a string has the method.\<close>

fun val_lower :: "pyval \<Rightarrow> error + string" where
  "val_lower (PStr s) = Inr (str_lower s)"
| "val_lower v = Inl (AttributeError ''lower'')"

text \<open>\<^verbatim>\<open>Chunk\<close> of \<^verbatim>\<open>app/chunking/base_chunker.py\<close>.\<close>

record Chunk =
  content :: string
  chunk_metadata :: "string \<rightharpoonup> pyval"
  chunk_index :: int

text \<open>
  \<^verbatim>\<open>SearchResult\<close> of \<^verbatim>\<open>app/vector_store/base_store.py\<close>. The field \<^verbatim>\<open>chunk\<close> is a
  reference to a chunk object: its value is the object's identity \<^verbatim>\<open>id(result.chunk)\<close>,
  and the object store maps it to the chunk. The search never writes to a chunk, so one
  object store serves a whole call. The result's own \<^verbatim>\<open>metadata\<close> dictionary holds the
  scores, all floats.
\<close>

record SearchResult =
  chunk :: nat
  score :: real
  metadata :: "string \<rightharpoonup> real"

text \<open>
  A result as both vector stores build it:
  \<^verbatim>\<open>SearchResult(chunk=chunk, score=s, metadata={"similarity": s})\<close>.
\<close>

definition new_result :: "nat \<Rightarrow> real \<Rightarrow> SearchResult" where
  "new_result c s = \<lparr>chunk = c, score = s, metadata = [''similarity'' \<mapsto> s]\<rparr>"

type_synonym chunk_store = "nat \<Rightarrow> Chunk"

text \<open>\<^verbatim>\<open>HybridSearchConfig\<close> of \<^verbatim>\<open>app/config/models/rag_config_model.py\<close>.\<close>

record HybridSearchConfig =
  semantic_weight :: real
  keyword_weight :: real
  top_k :: int
  rerank :: bool

section \<open>Collaborators\<close>

text \<open>
  The calls that leave the search engine, in the order they are made: the call of the
  vector store's \<^verbatim>\<open>search\<close>, the store's call of the embedder's \<^verbatim>\<open>embed_text\<close>, the
  embedder's request to the embedding service, and the store's request to its index.
\<close>

datatype io_event =
    VectorStoreSearch string int
  | EmbedText string
  | EmbedQuery string
  | ClientSearch int

text \<open>
  \<^verbatim>\<open>BaseVectorStore.search(query, top_k, embedder)\<close> with the embedder it is given: the
  calls it makes and the results it returns or the exception it raises.
\<close>

type_synonym vector_store = "string \<Rightarrow> int \<Rightarrow> io_event list \<times> (error + SearchResult list)"

text \<open>
  \<^verbatim>\<open>AzureEmbedder.embed_text\<close>; \<^verbatim>\<open>embed_query\<close> is the request to the embedding service.
\<close>

definition embed_text ::
  "(string \<Rightarrow> error + real list) \<Rightarrow> string \<Rightarrow> io_event list \<times> (error + real list)" where
  "embed_text embed_query text =
     (if text = [] \<or> str_strip text = []
      then ([EmbedText text], Inl (ValueError ''Cannot embed empty text''))
      else ([EmbedText text, EmbedQuery text], embed_query text))"

text \<open>
  \<^verbatim>\<open>QdrantVectorStore.search\<close>: the query is embedded first, then the index is asked for
  \<^verbatim>\<open>top_k\<close> points. \<^verbatim>\<open>client_search\<close> is the request to the index together with the
  loop that turns the returned payloads into search results.
\<close>

definition qdrant_search ::
  "(string \<Rightarrow> error + real list) \<Rightarrow> (real list \<Rightarrow> int \<Rightarrow> error + SearchResult list)
     \<Rightarrow> vector_store" where
  "qdrant_search embed_query client_search query k =
     (case embed_text embed_query query of
        (evs, Inl e) \<Rightarrow> (evs, Inl e)
      | (evs, Inr query_vector) \<Rightarrow> (evs @ [ClientSearch k], client_search query_vector k))"

section \<open>Score normalization\<close>

text \<open>Lines 25 to 32 of \<^verbatim>\<open>HybridSearch.search\<close>, for a pool \<^verbatim>\<open>r # rest\<close>.\<close>

definition max_score :: "SearchResult \<Rightarrow> SearchResult list \<Rightarrow> real" where
  "max_score r rest = foldl max (score r) (map score rest)"

definition min_score :: "SearchResult \<Rightarrow> SearchResult list \<Rightarrow> real" where
  "min_score r rest = foldl min (score r) (map score rest)"

definition score_range :: "SearchResult \<Rightarrow> SearchResult list \<Rightarrow> real" where
  "score_range r rest =
     (if max_score r rest \<noteq> min_score r rest then max_score r rest - min_score r rest else 1)"

fun normalize_scores :: "SearchResult list \<Rightarrow> SearchResult list" where
  "normalize_scores [] = []"
| "normalize_scores (r # rest) =
     map (\<lambda>result. result\<lparr>metadata := (metadata result)
            (''semantic_score'' \<mapsto> (score result - min_score r rest) / score_range r rest)\<rparr>)
       (r # rest)"

section \<open>Keyword search\<close>

text \<open>
  A Python set of strings is a list without repetition; \<^verbatim>\<open>set_add\<close> is \<^verbatim>\<open>s.add(x)\<close> and
  \<^verbatim>\<open>remdups\<close> is \<^verbatim>\<open>set(xs)\<close>. The sums below are over real numbers, so the order in which
  a set is read does not matter.
\<close>

definition set_add :: "string \<Rightarrow> string list \<Rightarrow> string list" where
  "set_add x xs = (if x \<in> set xs then xs else xs @ [x])"

text \<open>
  Lines 65 to 70: the names one candidate's content adds to the term set. At most the
  first three matches are read; a name is the match without \<^verbatim>\<open>.pdf\<close> and is kept when it
  has more than three characters.
\<close>

definition pdf_names :: "string \<Rightarrow> string list" where
  "pdf_names content_text =
     filter (\<lambda>pdf_name. length pdf_name > 3)
       (map (\<lambda>pdf_ref. str_replace pdf_ref ''.pdf'' '''')
          (take 3 (findall_pdf (str_lower content_text))))"

text \<open>
  The loop of lines 64 to 70 over the retrieved pool. The second component records the
  chunks whose content was scanned.
\<close>

fun scan_results ::
  "chunk_store \<Rightarrow> SearchResult list \<Rightarrow> string list \<times> nat list \<Rightarrow> string list \<times> nat list" where
  "scan_results chunks [] acc = acc"
| "scan_results chunks (result # rest) (expanded_terms, scanned) =
     scan_results chunks rest
       (foldl (\<lambda>terms pdf_name. set_add pdf_name terms) expanded_terms
          (pdf_names (content (chunks (chunk result)))),
        scanned @ [chunk result])"

text \<open>Lines 57 to 70: the expanded term set and the chunks scanned for it.\<close>

definition expand_terms ::
  "string \<Rightarrow> string list \<Rightarrow> chunk_store \<Rightarrow> SearchResult list \<Rightarrow> string list \<times> nat list" where
  "expand_terms query_lower query_terms chunks semantic_results =
     (if str_contains query_lower ''pdf'' \<or> str_contains query_lower ''sample'' then
        (let with_sample =
               (if str_contains query_lower ''sample''
                then set_add ''sample-3pp'' (set_add ''sample'' (remdups query_terms))
                else remdups query_terms)
         in if str_contains query_lower ''pdf''
            then scan_results chunks semantic_results (set_add ''pdf'' with_sample, [])
            else (with_sample, []))
      else (remdups query_terms, []))"

text \<open>Lines 78 to 83: the text built from the file name and the URL of a chunk.\<close>

definition metadata_text :: "(string \<rightharpoonup> pyval) \<Rightarrow> error + string" where
  "metadata_text md =
     (case (if truthy (dict_get md ''file_name'')
            then (case val_lower (dict_get md ''file_name'') of
                    Inl e \<Rightarrow> Inl e | Inr s \<Rightarrow> Inr ('' '' @ s))
            else Inr '''') of
        Inl e \<Rightarrow> Inl e
      | Inr text1 \<Rightarrow>
          (if truthy (dict_get md ''url'')
           then (case val_lower (dict_get md ''url'') of
                   Inl e \<Rightarrow> Inl e | Inr s \<Rightarrow> Inr (text1 @ '' '' @ s))
           else Inr text1))"

text \<open>Line 91: the occurrences of a term in the metadata text.\<close>

definition meta_count :: "string \<Rightarrow> string \<Rightarrow> nat" where
  "meta_count meta_text term = (if meta_text \<noteq> [] then str_count meta_text term else 0)"

text \<open>Lines 90 to 92: the occurrences of a term in the content and the metadata text.\<close>

definition term_count :: "string \<Rightarrow> string \<Rightarrow> string \<Rightarrow> nat" where
  "term_count content_lower meta_text term =
     str_count content_lower term + meta_count meta_text term"

text \<open>
  Lines 85 to 98: the loop over the term set for one chunk. The accumulator is
  \<^verbatim>\<open>(term_matches, total_term_count, metadata_matches)\<close>.
\<close>

fun count_terms ::
  "string \<Rightarrow> string \<Rightarrow> string list \<Rightarrow> nat \<times> nat \<times> nat \<Rightarrow> nat \<times> nat \<times> nat" where
  "count_terms content_lower meta_text [] acc = acc"
| "count_terms content_lower meta_text (term # terms)
     (term_matches, total_term_count, metadata_matches) =
     count_terms content_lower meta_text terms
       (if term_count content_lower meta_text term > 0
        then (term_matches + 1,
              total_term_count + term_count content_lower meta_text term,
              if meta_count meta_text term > 0 then metadata_matches + 1
              else metadata_matches)
        else (term_matches, total_term_count, metadata_matches))"

text \<open>Lines 100 to 106: the score from the three counters and the size of the term set.\<close>

definition score_of_counts :: "nat \<Rightarrow> nat \<times> nat \<times> nat \<Rightarrow> real" where
  "score_of_counts n counts =
     (case counts of (term_matches, total_term_count, metadata_matches) \<Rightarrow>
        if term_matches > 0
        then 0.5 * (real term_matches / real n)
             + 0.3 * min (real total_term_count / real (n * 5)) 1.0
             + min (real metadata_matches / real n) 0.3
        else 0.0)"

text \<open>Lines 76 to 106: the keyword score of one chunk for a term set.\<close>

definition keyword_score :: "string list \<Rightarrow> Chunk \<Rightarrow> error + real" where
  "keyword_score query_terms_set c =
     (case metadata_text (chunk_metadata c) of
        Inl e \<Rightarrow> Inl e
      | Inr meta_text \<Rightarrow>
          Inr (score_of_counts (length query_terms_set)
                 (count_terms (str_lower (content c)) meta_text query_terms_set (0, 0, 0))))"

text \<open>
  The loop of lines 75 to 108: the dictionary \<^verbatim>\<open>keyword_scores\<close>, keyed by the identity
  of the chunk.
\<close>

fun score_results ::
  "string list \<Rightarrow> chunk_store \<Rightarrow> SearchResult list \<Rightarrow> (nat \<rightharpoonup> real)
     \<Rightarrow> error + (nat \<rightharpoonup> real)" where
  "score_results query_terms_set chunks [] keyword_scores = Inr keyword_scores"
| "score_results query_terms_set chunks (result # rest) keyword_scores =
     (case keyword_score query_terms_set (chunks (chunk result)) of
        Inl e \<Rightarrow> Inl e
      | Inr s \<Rightarrow> score_results query_terms_set chunks rest (keyword_scores(chunk result \<mapsto> s)))"

text \<open>Line 53: the query terms.\<close>

definition tokenize :: "string \<Rightarrow> string list" where
  "tokenize query_lower =
     map str_strip (filter (\<lambda>term. length (str_strip term) > 1) (str_split query_lower))"

text \<open>
  \<^verbatim>\<open>HybridSearch._keyword_search\<close>: the chunks scanned by the term expansion, and the
  dictionary of keyword scores or the exception raised.
\<close>

definition keyword_search ::
  "string \<Rightarrow> chunk_store \<Rightarrow> SearchResult list \<Rightarrow> nat list \<times> (error + (nat \<rightharpoonup> real))" where
  "keyword_search query chunks semantic_results =
     (let query_lower = str_strip (str_lower query) in
      if query_lower = [] then ([], Inr Map.empty)
      else
        (let query_terms = tokenize query_lower in
         if query_terms = [] then ([], Inr Map.empty)
         else
           (case expand_terms query_lower query_terms chunks semantic_results of
              (query_terms_set, scanned) \<Rightarrow>
                (scanned, score_results query_terms_set chunks semantic_results Map.empty))))"


section \<open>Fusion, reranking and the search\<close>

text \<open>
  The sort key \<^verbatim>\<open>x.metadata.get("combined_score", 0.0)\<close> and the call
  \<^verbatim>\<open>sort(key=..., reverse=True)\<close>. Python's sort is stable, and with \<^verbatim>\<open>reverse=True\<close>
  elements with equal keys keep their original order: it is the stable ascending sort by
  the negated key.
\<close>

definition combined_key :: "SearchResult \<Rightarrow> real" where
  "combined_key x = (case metadata x ''combined_score'' of Some v \<Rightarrow> v | None \<Rightarrow> 0.0)"

definition sort_by_combined :: "SearchResult list \<Rightarrow> SearchResult list" where
  "sort_by_combined results = sort_key (\<lambda>x. - combined_key x) results"

text \<open>Lines 117 to 127: the body of the loop of \<^verbatim>\<open>_combine_results\<close> for one result.\<close>

definition combine_one ::
  "HybridSearchConfig \<Rightarrow> (nat \<rightharpoonup> real) \<Rightarrow> SearchResult \<Rightarrow> SearchResult" where
  "combine_one config keyword_scores result =
     (let semantic_score =
            (case metadata result ''semantic_score'' of Some v \<Rightarrow> v | None \<Rightarrow> score result);
          kw_score = (case keyword_scores (chunk result) of Some v \<Rightarrow> v | None \<Rightarrow> 0.0);
          combined_score =
            semantic_weight config * semantic_score + keyword_weight config * kw_score
      in result\<lparr>metadata := (metadata result)
           (''combined_score'' \<mapsto> combined_score, ''keyword_score'' \<mapsto> kw_score)\<rparr>)"

text \<open>\<^verbatim>\<open>HybridSearch._combine_results\<close>\<close>

definition combine_results ::
  "HybridSearchConfig \<Rightarrow> SearchResult list \<Rightarrow> (nat \<rightharpoonup> real) \<Rightarrow> SearchResult list" where
  "combine_results config semantic_results keyword_scores =
     sort_by_combined (map (combine_one config keyword_scores) semantic_results)"

text \<open>Lines 150 to 154: the position boost of one content for the query terms.\<close>

definition position_boost :: "string list \<Rightarrow> string \<Rightarrow> real" where
  "position_boost query_terms content_lower =
     foldl (\<lambda>boost term.
              (let pos = str_find content_lower term
               in if pos \<noteq> - 1 then boost + 1.0 / (1.0 + real_of_int pos / 100.0) else boost))
       0.0 query_terms"

text \<open>Lines 158 to 162: whether the chunk carries site context.\<close>

definition has_site_context :: "(string \<rightharpoonup> pyval) \<Rightarrow> bool" where
  "has_site_context md =
     (truthy (dict_get md ''site_common'') \<or> truthy (dict_get md ''navigation_links'')
      \<or> truthy (dict_get md ''url''))"

text \<open>Lines 156 to 167: the context boost.\<close>

definition site_context_boost :: "bool \<Rightarrow> (string \<rightharpoonup> pyval) \<Rightarrow> real" where
  "site_context_boost is_site_query md =
     (if has_site_context md then (if is_site_query then 0.25 else 0.15) else 0.0)"

text \<open>Line 145.\<close>

definition is_site_query :: "string \<Rightarrow> bool" where
  "is_site_query query =
     (str_contains (str_lower query) ''site'' \<or> str_contains (str_lower query) ''this'')"

text \<open>Lines 148 to 174: the body of the loop of \<^verbatim>\<open>_rerank\<close> for one result.\<close>

definition rerank_one :: "chunk_store \<Rightarrow> string \<Rightarrow> SearchResult \<Rightarrow> SearchResult" where
  "rerank_one chunks query result =
     (let query_terms = remdups (str_split (str_lower query));
          content_lower = str_lower (content (chunks (chunk result)));
          current_score = combined_key result
      in result\<lparr>metadata := (metadata result)
           (''combined_score'' \<mapsto>
              current_score + position_boost query_terms content_lower * 0.1
                + site_context_boost (is_site_query query)
                    (chunk_metadata (chunks (chunk result))))\<rparr>)"

text \<open>\<^verbatim>\<open>HybridSearch._rerank\<close>\<close>

definition rerank_results :: "chunk_store \<Rightarrow> SearchResult list \<Rightarrow> string \<Rightarrow> SearchResult list" where
  "rerank_results chunks results query = sort_by_combined (map (rerank_one chunks query) results)"

text \<open>
  The slice \<^verbatim>\<open>xs[:k]\<close>: the first \<^verbatim>\<open>k\<close> elements, and for a negative \<^verbatim>\<open>k\<close> all but the
  last \<^verbatim>\<open>-k\<close>.
\<close>

definition slice_to :: "'a list \<Rightarrow> int \<Rightarrow> 'a list" where
  "slice_to xs k = (if 0 \<le> k then take (nat k) xs else take (length xs - nat (- k)) xs)"

text \<open>
  \<^verbatim>\<open>InMemoryVectorStore.search\<close>. The query is embedded first. \<^verbatim>\<open>similarities\<close> are the
  cosine similarities of the stored vectors to the query vector, one for each stored
  chunk, computed outside this model; the chunk at index \<^verbatim>\<open>idx\<close> is the object with
  reference \<^verbatim>\<open>idx\<close>. \<^verbatim>\<open>np.argsort(similarities)[::-1][:top_k]\<close> is the list of indices by
  descending similarity, cut by the slice; only positive similarities are returned.
\<close>

definition in_memory_search :: "(string \<Rightarrow> error + real list) \<Rightarrow> real list \<Rightarrow> vector_store" where
  "in_memory_search embed_query similarities query k =
     (case embed_text embed_query query of
        (evs, Inl e) \<Rightarrow> (evs, Inl e)
      | (evs, Inr query_vector) \<Rightarrow>
          (let top_indices =
                 slice_to (rev (sort_key (\<lambda>idx. similarities ! idx) [0..<length similarities])) k
           in (evs, Inr (map (\<lambda>idx. new_result idx (similarities ! idx))
                           (filter (\<lambda>idx. similarities ! idx > 0) top_indices)))))"

text \<open>
  \<^verbatim>\<open>HybridSearch.search\<close>: the calls made to the collaborators, and the results returned
  or the exception raised. \<^verbatim>\<open>chunks\<close> is the object store that holds the chunks of the
  results the vector store returns.
\<close>

definition search ::
  "HybridSearchConfig \<Rightarrow> chunk_store \<Rightarrow> vector_store \<Rightarrow> string
     \<Rightarrow> io_event list \<times> (error + SearchResult list)" where
  "search config chunks vector_store_search query =
     (case vector_store_search query (top_k config * 2) of
        (evs, Inl e) \<Rightarrow> (VectorStoreSearch query (top_k config * 2) # evs, Inl e)
      | (evs, Inr retrieved) \<Rightarrow>
          (let semantic_results = normalize_scores retrieved in
           case snd (keyword_search query chunks semantic_results) of
             Inl e \<Rightarrow> (VectorStoreSearch query (top_k config * 2) # evs, Inl e)
           | Inr keyword_results \<Rightarrow>
               (let combined_results = combine_results config semantic_results keyword_results;
                    reranked =
                      (if rerank config then rerank_results chunks combined_results query
                       else combined_results)
                in (VectorStoreSearch query (top_k config * 2) # evs,
                    Inr (slice_to reranked (top_k config))))))"

section \<open>Example data\<close>

text \<open>The defaults of \<^verbatim>\<open>HybridSearchConfig\<close>.\<close>

definition default_config :: HybridSearchConfig where
  "default_config = \<lparr>semantic_weight = 0.7, keyword_weight = 0.3, top_k = 5, rerank = True\<rparr>"

text \<open>\<^verbatim>\<open>Chunk(content, metadata)\<close>, with the default \<^verbatim>\<open>chunk_index=0\<close>.\<close>

definition chunk_of :: "string \<Rightarrow> (string \<rightharpoonup> pyval) \<Rightarrow> Chunk" where
  "chunk_of text md = \<lparr>content = text, chunk_metadata = md, chunk_index = 0\<rparr>"

text \<open>An object store whose chunks are all empty; examples update it at the references used.\<close>

definition blank_chunks :: chunk_store where
  "blank_chunks = (\<lambda>ref. chunk_of [] Map.empty)"

text \<open>A vector store that returns a fixed pool and makes no further calls.\<close>

definition fixed_store :: "SearchResult list \<Rightarrow> vector_store" where
  "fixed_store pool = (\<lambda>query k. ([], Inr pool))"

text \<open>An embedding service that answers every text with the same vector.\<close>

definition constant_embedding :: "string \<Rightarrow> error + real list" where
  "constant_embedding = (\<lambda>text. Inr [1])"

text \<open>An index that holds no points.\<close>

definition empty_index :: "real list \<Rightarrow> int \<Rightarrow> error + SearchResult list" where
  "empty_index = (\<lambda>query_vector k. Inr [])"

text \<open>Two chunks and the pool a vector store returns for them.\<close>

definition two_chunks :: chunk_store where
  "two_chunks = blank_chunks
     (0 := chunk_of ''Hello world'' [''url'' \<mapsto> PStr ''http://a.example/hello''],
      1 := chunk_of ''Other text'' Map.empty)"

definition two_results :: "SearchResult list" where
  "two_results = [new_result 0 0.9, new_result 1 0.5]"

text \<open>Two chunks whose contents name PDF files.\<close>

definition report_chunks :: chunk_store where
  "report_chunks = blank_chunks
     (0 := chunk_of ''Download sample-3pp.pdf here'' Map.empty,
      1 := chunk_of ''Report_2024.PDF a.pdf one1.pdf two2.pdf'' Map.empty)"


section \<open>Auxiliary facts\<close>

lemma foldl_max_Max: "foldl max (x::real) xs = Max (insert x (set xs))"
proof (induction xs arbitrary: x)
  case Nil
  then show ?case by simp
next
  case (Cons y ys)
  have "Max (insert (max x y) (set ys)) = Max (insert x (insert y (set ys)))"
    by (cases "set ys = {}") (simp_all add: max.assoc)
  with Cons show ?case by simp
qed

lemma foldl_min_Min: "foldl min (x::real) xs = Min (insert x (set xs))"
proof (induction xs arbitrary: x)
  case Nil
  then show ?case by simp
next
  case (Cons y ys)
  have "Min (insert (min x y) (set ys)) = Min (insert x (insert y (set ys)))"
    by (cases "set ys = {}") (simp_all add: min.assoc)
  with Cons show ?case by simp
qed

lemma max_score_Max: "max_score r rest = Max (score ` set (r # rest))"
  unfolding max_score_def foldl_max_Max by simp

lemma min_score_Min: "min_score r rest = Min (score ` set (r # rest))"
  unfolding min_score_def foldl_min_Min by simp

lemma score_range_nonzero: "score_range r rest \<noteq> 0"
  by (simp add: score_range_def)

lemma score_range_eq:
  "score_range r rest =
     (if Max (score ` set (r # rest)) = Min (score ` set (r # rest)) then 1
      else Max (score ` set (r # rest)) - Min (score ` set (r # rest)))"
  unfolding score_range_def max_score_Max min_score_Min by simp

lemma strip_blank_iff: "str_strip s = [] \<longleftrightarrow> (\<forall>c\<in>set s. is_space c)"
proof
  assume "str_strip s = []"
  then have all: "\<forall>x\<in>set (dropWhile is_space s). is_space x"
    by (simp add: str_strip_def)
  have "dropWhile is_space s = []"
  proof (rule ccontr)
    assume ne: "dropWhile is_space s \<noteq> []"
    then have "\<not> is_space (hd (dropWhile is_space s))"
      by (rule hd_dropWhile)
    moreover have "hd (dropWhile is_space s) \<in> set (dropWhile is_space s)"
      using ne by simp
    ultimately show False using all by blast
  qed
  then show "\<forall>c\<in>set s. is_space c"
    by simp
next
  assume "\<forall>c\<in>set s. is_space c"
  then have "dropWhile is_space s = []" by simp
  then show "str_strip s = []" by (simp add: str_strip_def del: dropWhile_eq_Nil_conv)
qed

lemma is_space_lower_char: "is_space c \<Longrightarrow> lower_char c = c"
  by (auto simp: is_space_def lower_char_def is_upper_def)

lemma strip_lower_blank: "str_strip s = [] \<Longrightarrow> str_strip (str_lower s) = []"
  unfolding strip_blank_iff str_lower_def by (auto simp: is_space_lower_char)

lemma keyword_search_blank:
  "str_strip query = [] \<Longrightarrow> keyword_search query chunks rs = ([], Inr Map.empty)"
  by (simp add: keyword_search_def strip_lower_blank)

lemma search_events:
  "fst (search config chunks store query) =
     VectorStoreSearch query (top_k config * 2) # fst (store query (top_k config * 2))"
  unfolding search_def
  by (auto split: prod.splits sum.splits simp: Let_def)

lemma length_slice_to: "0 \<le> k \<Longrightarrow> int (length (slice_to xs k)) \<le> k"
  by (simp add: slice_to_def)

lemma set_slice_to: "set (slice_to xs k) \<subseteq> set xs"
  by (auto simp: slice_to_def dest: in_set_takeD)

lemmas eval_defs =
  search_def default_config_def in_memory_search_def qdrant_search_def fixed_store_def embed_text_def
  constant_embedding_def empty_index_def blank_chunks_def chunk_of_def new_result_def
  two_chunks_def two_results_def
  str_strip_def is_space_def str_lower_def lower_char_def is_upper_def char_of_def bit_Suc_0_iff Let_def
  str_split_def str_count_def
  str_find_def str_replace_def name_char_def slice_to_def
  min_score_def max_score_def score_range_def
  keyword_search_def tokenize_def expand_terms_def set_add_def pdf_names_def metadata_text_def
  dict_get_def keyword_score_def score_of_counts_def meta_count_def term_count_def
  combine_results_def combine_one_def sort_by_combined_def combined_key_def
  rerank_results_def rerank_one_def position_boost_def site_context_boost_def has_site_context_def
  is_site_query_def



lemma is_prefix_iff: "is_prefix p s \<longleftrightarrow> (\<exists>v. s = p @ v)"
  by (induction p s rule: is_prefix.induct) auto

lemma str_contains_iff: "str_contains s t \<longleftrightarrow> (\<exists>u v. s = u @ t @ v)"
proof (induction s)
  case Nil
  then show ?case by auto
next
  case (Cons c cs)
  show ?case
  proof
    assume "str_contains (c # cs) t"
    then consider "is_prefix t (c # cs)" | "str_contains cs t" by auto
    then show "\<exists>u v. c # cs = u @ t @ v"
    proof cases
      case 1
      then obtain v where "c # cs = t @ v" by (auto simp: is_prefix_iff)
      then have "c # cs = [] @ t @ v" by simp
      then show ?thesis by blast
    next
      case 2
      then obtain u v where "cs = u @ t @ v" using Cons by blast
      then have "c # cs = (c # u) @ t @ v" by simp
      then show ?thesis by blast
    qed
  next
    assume "\<exists>u v. c # cs = u @ t @ v"
    then obtain u v where uv: "c # cs = u @ t @ v" by blast
    show "str_contains (c # cs) t"
    proof (cases u)
      case Nil
      then have "is_prefix t (c # cs)" using uv by (auto simp: is_prefix_iff)
      then show ?thesis by simp
    next
      case (Cons a u')
      then have "cs = u' @ t @ v" using uv by simp
      then have "str_contains cs t" using Cons.IH by blast
      then show ?thesis by simp
    qed
  qed
qed

lemma split_from_substring:
  "t \<in> set (split_from cur cs) \<Longrightarrow> \<exists>u v. cur @ cs = u @ t @ v"
proof (induction cur cs rule: split_from.induct)
  case (1 cur)
  then have "t = cur" by (auto split: if_splits)
  then have "cur @ [] = [] @ t @ []" by simp
  then show ?case by blast
next
  case (2 cur c cs)
  show ?case
  proof (cases "is_space c")
    case False
    then have "t \<in> set (split_from (cur @ [c]) cs)" using 2 by simp
    then obtain u v where "(cur @ [c]) @ cs = u @ t @ v" using 2 False by blast
    then show ?thesis by auto
  next
    case True
    then consider "t = cur" | "t \<in> set (split_from [] cs)"
      using 2 by (auto split: if_splits)
    then show ?thesis
    proof cases
      case 1
      then have "cur @ c # cs = [] @ t @ (c # cs)" by simp
      then show ?thesis by blast
    next
      case b: 2
      have "\<exists>u v. [] @ cs = u @ t @ v"
      proof (cases "cur = []")
        case True
        then show ?thesis using 2(1) \<open>is_space c\<close> b by blast
      next
        case False
        then show ?thesis using 2(2) \<open>is_space c\<close> b by blast
      qed
      then obtain u v where "cs = u @ t @ v" by auto
      then have "cur @ c # cs = (cur @ c # u) @ t @ v" by simp
      then show ?thesis by blast
    qed
  qed
qed

lemma token_is_substring: "t \<in> set (str_split s) \<Longrightarrow> str_contains s t"
  using split_from_substring [of t "[]" s] by (simp add: str_split_def str_contains_iff)

lemma combined_key_rerank_one:
  "combined_key (rerank_one chunks query r) =
     combined_key r
     + position_boost (remdups (str_split (str_lower query)))
         (str_lower (content (chunks (chunk r)))) * 0.1
     + site_context_boost (is_site_query query) (chunk_metadata (chunks (chunk r)))"
  by (simp add: rerank_one_def Let_def combined_key_def)

lemma count_terms_closed:
  "count_terms cl mt terms (a, b, c) =
     (a + length (filter (\<lambda>t. 0 < term_count cl mt t) terms),
      b + sum_list (map (term_count cl mt) terms),
      c + length (filter (\<lambda>t. 0 < meta_count mt t) terms))"
proof (induction terms arbitrary: a b c)
  case Nil
  then show ?case by simp
next
  case (Cons t ts)
  show ?case
  proof (cases "0 < term_count cl mt t")
    case True
    then show ?thesis by (simp add: Cons)
  next
    case False
    then have "term_count cl mt t = 0" "meta_count mt t = 0"
      by (simp_all add: term_count_def)
    then show ?thesis by (simp add: Cons)
  qed
qed

lemma count_from_pos_iff: "sub \<noteq> [] \<Longrightarrow> 0 < count_from s sub \<longleftrightarrow> str_contains s sub"
  by (induction s sub rule: count_from.induct) auto

lemma str_count_pos_iff: "sub \<noteq> [] \<Longrightarrow> 0 < str_count s sub \<longleftrightarrow> str_contains s sub"
  by (simp add: str_count_def count_from_pos_iff)

lemma meta_count_pos_iff: "t \<noteq> [] \<Longrightarrow> 0 < meta_count mt t \<longleftrightarrow> str_contains mt t"
  by (cases mt) (simp_all add: meta_count_def str_count_pos_iff)

lemma term_count_pos_iff:
  "t \<noteq> [] \<Longrightarrow> 0 < term_count cl mt t \<longleftrightarrow> str_contains cl t \<or> str_contains mt t"
  using str_count_pos_iff [of t cl] meta_count_pos_iff [of t mt]
  by (auto simp: term_count_def)

lemma score_of_counts_pos:
  assumes "0 < tm" and "0 < n"
  shows "0 < score_of_counts n (tm, tc, mm)"
proof -
  have "0 < 0.5 * (real tm / real n)" using assms by simp
  moreover have "0 \<le> 0.3 * min (real tc / real (n * 5)) 1.0" by simp
  moreover have "0 \<le> min (real mm / real n) (0.3::real)" by simp
  moreover have "score_of_counts n (tm, tc, mm) =
      0.5 * (real tm / real n) + 0.3 * min (real tc / real (n * 5)) 1.0 + min (real mm / real n) 0.3"
    using assms by (simp add: score_of_counts_def)
  ultimately show ?thesis by linarith
qed

lemma score_of_counts_bounds:
  assumes "tm \<le> n"
  shows "0 \<le> score_of_counts n (tm, tc, mm) \<and> score_of_counts n (tm, tc, mm) \<le> 11 / 10"
proof (cases "0 < tm")
  case False
  then show ?thesis by (simp add: score_of_counts_def)
next
  case True
  then have n: "0 < n" using assms by simp
  have a: "0 \<le> real tm / real n" "real tm / real n \<le> 1"
    using assms n by simp_all
  have b: "0 \<le> min (real tc / real (n * 5)) (1.0::real)" "min (real tc / real (n * 5)) (1.0::real) \<le> 1"
    by simp_all
  have c: "0 \<le> min (real mm / real n) (0.3::real)"
    by simp
  have c': "min (real mm / real n) (0.3::real) \<le> 0.3"
    by (rule min.cobounded2)
  have "score_of_counts n (tm, tc, mm) =
      0.5 * (real tm / real n) + 0.3 * min (real tc / real (n * 5)) 1.0 + min (real mm / real n) 0.3"
    using True by (simp add: score_of_counts_def)
  with a b c c' show ?thesis by linarith
qed

lemma keyword_search_no_terms:
  "tokenize (str_strip (str_lower query)) = [] \<Longrightarrow>
     keyword_search query chunks rs = ([], Inr Map.empty)"
  by (simp add: keyword_search_def Let_def)

lemma combine_one_keyword_score:
  "metadata (combine_one config ks r) ''keyword_score'' =
     Some (case ks (chunk r) of Some v \<Rightarrow> v | None \<Rightarrow> 0)"
  by (simp add: combine_one_def Let_def split: option.splits)

lemma keyword_score_bounds:
  assumes "keyword_score terms c = Inr s"
  shows "0 \<le> s \<and> s \<le> 11 / 10"
proof -
  obtain mt where mt: "metadata_text (chunk_metadata c) = Inr mt"
    using assms by (auto simp: keyword_score_def split: sum.splits)
  have "length (filter (\<lambda>t. 0 < term_count (str_lower (content c)) mt t) terms) \<le> length terms"
    by (rule length_filter_le)
  then show ?thesis
    using assms mt score_of_counts_bounds
    by (auto simp: keyword_score_def count_terms_closed)
qed

lemma score_results_lookup:
  assumes "score_results terms chunks rs ks0 = Inr ks"
  shows "(\<forall>r\<in>set rs. \<exists>s. keyword_score terms (chunks (chunk r)) = Inr s \<and> ks (chunk r) = Some s)
    \<and> (\<forall>k. k \<notin> chunk ` set rs \<longrightarrow> ks k = ks0 k)"
  using assms
proof (induction rs arbitrary: ks0)
  case Nil
  then show ?case by simp
next
  case (Cons r rest)
  from Cons.prems obtain s where s: "keyword_score terms (chunks (chunk r)) = Inr s"
    and rest: "score_results terms chunks rest (ks0(chunk r \<mapsto> s)) = Inr ks"
    by (auto split: sum.splits)
  note ih = Cons.IH [OF rest]
  have head: "ks (chunk r) = Some s"
  proof (cases "chunk r \<in> chunk ` set rest")
    case True
    then obtain r' where r': "r' \<in> set rest" "chunk r' = chunk r" by auto
    with ih obtain s' where "keyword_score terms (chunks (chunk r')) = Inr s'" "ks (chunk r') = Some s'"
      by blast
    with r' s show ?thesis by simp
  next
    case False
    with ih have "ks (chunk r) = (ks0(chunk r \<mapsto> s)) (chunk r)" by blast
    then show ?thesis by simp
  qed
  show ?case
    using ih head s by auto
qed

lemma score_results_values:
  assumes "score_results terms chunks rs Map.empty = Inr ks" and "ks k = Some v"
  shows "0 \<le> v \<and> v \<le> 11 / 10"
proof (cases "k \<in> chunk ` set rs")
  case True
  then obtain r where "r \<in> set rs" "chunk r = k" by auto
  with score_results_lookup [OF assms(1)] obtain s
    where "keyword_score terms (chunks k) = Inr s" "ks k = Some s" by blast
  with assms(2) keyword_score_bounds show ?thesis by auto
next
  case False
  with score_results_lookup [OF assms(1)] have "ks k = None" by simp
  with assms(2) show ?thesis by simp
qed

lemma keyword_search_values:
  assumes "snd (keyword_search query chunks rs) = Inr ks" and "ks k = Some v"
  shows "0 \<le> v \<and> v \<le> 11 / 10"
  using assms score_results_values
  by (auto simp: keyword_search_def Let_def split: if_splits prod.splits)

lemma normalize_scores_value:
  assumes "r \<in> set (normalize_scores rs)"
  shows "\<exists>s. metadata r ''semantic_score'' = Some s \<and> 0 \<le> s \<and> s \<le> 1"
proof -
  from assms obtain r0 rest where rs: "rs = r0 # rest"
    by (cases rs) auto
  from assms obtain x where x: "x \<in> set rs"
    and r: "r = x\<lparr>metadata := (metadata x)
        (''semantic_score'' \<mapsto> (score x - min_score r0 rest) / score_range r0 rest)\<rparr>"
    unfolding rs by auto
  have fin: "finite (score ` set rs)" "score x \<in> score ` set rs"
    using x by simp_all
  then have lo: "Min (score ` set rs) \<le> score x" and hi: "score x \<le> Max (score ` set rs)"
    by simp_all
  have val: "0 \<le> (score x - min_score r0 rest) / score_range r0 rest
      \<and> (score x - min_score r0 rest) / score_range r0 rest \<le> 1"
  proof (cases "Max (score ` set rs) = Min (score ` set rs)")
    case True
    with lo hi have "score x = Min (score ` set rs)" by simp
    then show ?thesis
      using True by (simp add: rs score_range_eq min_score_Min)
  next
    case False
    have "Min (score ` set rs) \<le> Max (score ` set rs)" using lo hi by simp
    with False have pos: "0 < Max (score ` set rs) - Min (score ` set rs)" by simp
    have "score x - Min (score ` set rs) \<le> Max (score ` set rs) - Min (score ` set rs)"
      using hi by simp
    moreover have "0 \<le> score x - Min (score ` set rs)" using lo by simp
    ultimately show ?thesis
      using False pos by (simp add: rs score_range_eq min_score_Min)
  qed
  show ?thesis using r val by simp
qed

lemma combine_one_semantic:
  "metadata (combine_one config ks r) ''semantic_score'' = metadata r ''semantic_score''"
  by (simp add: combine_one_def Let_def)

lemma rerank_one_other_keys:
  "key \<noteq> ''combined_score'' \<Longrightarrow> metadata (rerank_one chunks query r) key = metadata r key"
  by (simp add: rerank_one_def Let_def)

lemma set_sort_by_combined: "set (sort_by_combined xs) = set xs"
  by (simp add: sort_by_combined_def)

text \<open>
  The keyword score of a chunk reads its content and its metadata only; without \<^verbatim>\<open>pdf\<close>
  in the query the term set is built from the query alone.
\<close>

lemma keyword_score_cong:
  "content c1 = content c2 \<Longrightarrow> chunk_metadata c1 = chunk_metadata c2 \<Longrightarrow>
     keyword_score terms c1 = keyword_score terms c2"
  by (simp only: keyword_score_def)

lemma expand_terms_no_pdf:
  "\<not> str_contains query_lower ''pdf'' \<Longrightarrow>
     expand_terms query_lower query_terms chunks rs =
       (if str_contains query_lower ''sample''
        then set_add ''sample-3pp'' (set_add ''sample'' (remdups query_terms))
        else remdups query_terms, [])"
  by (simp add: expand_terms_def Let_def)

lemma keyword_search_cases:
  "keyword_search query chunks rs =
     (if tokenize (str_strip (str_lower query)) = [] then ([], Inr Map.empty)
      else (snd (expand_terms (str_strip (str_lower query))
                   (tokenize (str_strip (str_lower query))) chunks rs),
            score_results
              (fst (expand_terms (str_strip (str_lower query))
                      (tokenize (str_strip (str_lower query))) chunks rs))
              chunks rs Map.empty))"
proof -
  have "tokenize [] = []"
    by (simp add: tokenize_def str_split_def)
  then show ?thesis
    by (auto simp: keyword_search_def Let_def split: prod.splits)
qed

lemma score_results_at:
  assumes "score_results terms chunks rs ks0 = Inr ks" and "k \<in> chunk ` set rs"
  shows "\<exists>s. keyword_score terms (chunks k) = Inr s \<and> ks k = Some s"
proof -
  from assms(2) obtain r where r: "r \<in> set rs" and k: "k = chunk r"
    by (rule imageE)
  from score_results_lookup [OF assms(1)]
  have "\<forall>r\<in>set rs. \<exists>s. keyword_score terms (chunks (chunk r)) = Inr s \<and> ks (chunk r) = Some s"
    by (rule conjunct1)
  from bspec [OF this r] show ?thesis
    unfolding k .
qed

lemma keyword_search_at:
  assumes "tokenize (str_strip (str_lower query)) \<noteq> []"
    and "snd (keyword_search query chunks rs) = Inr ks"
    and "k \<in> chunk ` set rs"
  shows "\<exists>s. keyword_score
               (fst (expand_terms (str_strip (str_lower query))
                       (tokenize (str_strip (str_lower query))) chunks rs))
               (chunks k) = Inr s \<and> ks k = Some s"
proof -
  have "score_results
          (fst (expand_terms (str_strip (str_lower query))
                  (tokenize (str_strip (str_lower query))) chunks rs))
          chunks rs Map.empty = Inr ks"
    using assms(2) unfolding keyword_search_cases if_not_P [OF assms(1)] snd_conv .
  from score_results_at [OF this assms(3)] show ?thesis .
qed

text \<open>
  The term expansion: what the loops add to the term set, and the shape of the matches
  of the regular expression.
\<close>

lemma set_foldl_set_add:
  "set (foldl (\<lambda>terms pdf_name. set_add pdf_name terms) ts ns) = set ts \<union> set ns"
  by (induction ns arbitrary: ts) (auto simp: set_add_def)

lemma scan_results_fst:
  "set (fst (scan_results chunks rs (ts, sc)))
     = set ts \<union> (\<Union>r\<in>set rs. set (pdf_names (content (chunks (chunk r)))))"
  by (induction rs arbitrary: ts sc) (auto simp: set_foldl_set_add)

lemma scan_results_snd: "snd (scan_results chunks rs (ts, sc)) = sc @ map chunk rs"
  by (induction rs arbitrary: ts sc) auto

lemma length_pdf_names: "length (pdf_names c) \<le> 3"
proof -
  have "length (pdf_names c) \<le> length (take 3 (findall_pdf (str_lower c)))"
    unfolding pdf_names_def by (rule order_trans [OF length_filter_le]) simp
  then show ?thesis by simp
qed

lemma name_char_not_dot: "name_char x \<Longrightarrow> x \<noteq> CHR ''.''"
  by (auto simp: name_char_def)

lemma replace_from_stem:
  "\<forall>x\<in>set run. x \<noteq> CHR ''.'' \<Longrightarrow> replace_from (run @ ''.pdf'') ''.pdf'' [] = run"
  by (induction run) auto

lemma findall_pdf_shape:
  "m \<in> set (findall_pdf s) \<Longrightarrow>
     \<exists>run. m = run @ ''.pdf'' \<and> run \<noteq> [] \<and> (\<forall>x\<in>set run. name_char x) \<and> str_contains s m"
proof (induction s rule: findall_pdf.induct)
  case 1
  then show ?case by simp
next
  case (2 c cs)
  show ?case
  proof (cases "name_char c \<and> is_prefix ''.pdf'' (dropWhile name_char (c # cs))")
    case True
    from True obtain v where v: "dropWhile name_char (c # cs) = ''.pdf'' @ v"
      unfolding is_prefix_iff by blast
    have split: "c # cs = takeWhile name_char (c # cs) @ ''.pdf'' @ v"
      using takeWhile_dropWhile_id [of name_char "c # cs"] unfolding v by simp
    have "findall_pdf (c # cs) = (takeWhile name_char (c # cs) @ ''.pdf'')
        # findall_pdf (drop 4 (dropWhile name_char (c # cs)))"
      unfolding findall_pdf.simps(2) if_P [OF True] ..
    with "2.prems"
    have "m = takeWhile name_char (c # cs) @ ''.pdf''
        \<or> m \<in> set (findall_pdf (drop 4 (dropWhile name_char (c # cs))))"
      by (simp only: set_simps insert_iff)
    then show ?thesis
    proof
      assume m: "m = takeWhile name_char (c # cs) @ ''.pdf''"
      have "takeWhile name_char (c # cs) \<noteq> []"
        using True by simp
      moreover have "\<forall>x\<in>set (takeWhile name_char (c # cs)). name_char x"
        by (auto dest: set_takeWhileD)
      moreover have "str_contains (c # cs) m"
        unfolding str_contains_iff
      proof (intro exI)
        show "c # cs = [] @ m @ v"
          unfolding m append_Nil append_assoc by (rule split)
      qed
      ultimately show ?thesis
        using m by blast
    next
      assume "m \<in> set (findall_pdf (drop 4 (dropWhile name_char (c # cs))))"
      from "2.IH"(1) [OF True this] obtain run where run: "m = run @ ''.pdf''" "run \<noteq> []"
        "\<forall>x\<in>set run. name_char x" "str_contains (drop 4 (dropWhile name_char (c # cs))) m"
        by blast
      have d: "drop 4 (dropWhile name_char (c # cs)) = v"
        unfolding v by simp
      from run(4) obtain u w where "v = u @ m @ w"
        unfolding d str_contains_iff by blast
      with split have "c # cs = takeWhile name_char (c # cs) @ ''.pdf'' @ u @ m @ w"
        by (simp only:)
      then have "c # cs = (takeWhile name_char (c # cs) @ ''.pdf'' @ u) @ m @ w"
        by (simp only: append_assoc)
      then have "str_contains (c # cs) m"
        unfolding str_contains_iff by blast
      with run(1,2,3) show ?thesis by blast
    qed
  next
    case False
    have "findall_pdf (c # cs) = findall_pdf cs"
      unfolding findall_pdf.simps(2) if_not_P [OF False] ..
    with "2.prems" have "m \<in> set (findall_pdf cs)"
      by (simp only:)
    from "2.IH"(2) [OF False this] obtain run where run: "m = run @ ''.pdf''" "run \<noteq> []"
        "\<forall>x\<in>set run. name_char x" "str_contains cs m"
      by blast
    from run(4) obtain u w where "cs = u @ m @ w"
      unfolding str_contains_iff by blast
    then have "c # cs = (c # u) @ m @ w"
      by simp
    then have "str_contains (c # cs) m"
      unfolding str_contains_iff by blast
    with run(1,2,3) show ?thesis by blast
  qed
qed

lemma pdf_names_shape:
  assumes "t \<in> set (pdf_names c)"
  shows "3 < length t \<and> (\<forall>x\<in>set t. name_char x) \<and> str_contains (str_lower c) (t @ ''.pdf'')"
proof -
  from assms obtain m where m: "m \<in> set (findall_pdf (str_lower c))"
    and t: "t = str_replace m ''.pdf'' []" and len: "3 < length t"
    unfolding pdf_names_def by (auto dest: in_set_takeD)
  from findall_pdf_shape [OF m] obtain run where run: "m = run @ ''.pdf''"
    "\<forall>x\<in>set run. name_char x" "str_contains (str_lower c) m"
    by blast
  have "t = run"
    unfolding t run(1) str_replace_def using run(2)
    by (simp add: replace_from_stem name_char_not_dot)
  with run len show ?thesis by simp
qed


section \<open>Score normalization: claim C1\<close>

text \<open>
  C1, as the code has it. The empty pool is returned as it is and the pool keeps its
  length. For the result at any position of a pool that is not empty, the divisor
  \<^verbatim>\<open>score_range\<close> is never zero, and the stored \<^verbatim>\<open>semantic_score\<close> is
  \<^verbatim>\<open>(s - min) / (max - min)\<close> when the largest and the smallest raw score differ, and
  \<^verbatim>\<open>0.0\<close> when they are equal (a single result, or all scores equal): then the divisor
  is \<^verbatim>\<open>1.0\<close> and every numerator \<^verbatim>\<open>s - min\<close> is zero.
\<close>

theorem normalize_scores_min_max:
  assumes "i < length rs"
  shows "normalize_scores [] = []
    \<and> length (normalize_scores rs) = length rs
    \<and> score_range (hd rs) (tl rs) \<noteq> 0
    \<and> metadata (normalize_scores rs ! i) ''semantic_score'' =
        Some (if Max (score ` set rs) = Min (score ` set rs) then 0
              else (score (rs ! i) - Min (score ` set rs))
                   / (Max (score ` set rs) - Min (score ` set rs)))"
proof -
  from assms obtain r rest where rs: "rs = r # rest"
    by (cases rs) auto
  have len: "length (normalize_scores rs) = length rs"
    by (simp add: rs)
  have val: "metadata (normalize_scores rs ! i) ''semantic_score'' =
      Some ((score (rs ! i) - min_score r rest) / score_range r rest)"
    using assms unfolding rs normalize_scores.simps by (simp only: nth_map) simp
  have same: "Max (score ` set rs) = Min (score ` set rs) \<Longrightarrow>
      score (rs ! i) = Min (score ` set rs)"
  proof -
    assume eq: "Max (score ` set rs) = Min (score ` set rs)"
    have "score (rs ! i) \<in> score ` set rs" using assms by simp
    then have "Min (score ` set rs) \<le> score (rs ! i)" "score (rs ! i) \<le> Max (score ` set rs)"
      by simp_all
    with eq show ?thesis by simp
  qed
  show ?thesis
    using len val same score_range_nonzero [of "hd rs" "tl rs"]
    by (auto simp: rs score_range_eq min_score_Min)
qed

text \<open>The pool with raw scores 1, 3 and 5: the middle result gets one half.\<close>

theorem normalize_scores_min_max_witness:
  "(1::nat) < length [new_result 0 1, new_result 1 3, new_result 2 5]
   \<and> metadata (normalize_scores [new_result 0 1, new_result 1 3, new_result 2 5] ! 1)
        ''semantic_score'' = Some (1 / 2)"
  using normalize_scores_min_max [of 1 "[new_result 0 1, new_result 1 3, new_result 2 5]"]
  by (simp add: new_result_def)

text \<open>
  The claim's own examples fail: the single result with raw score 5 gets \<^verbatim>\<open>0.0\<close> and
  not \<^verbatim>\<open>1.0\<close>, and so does each of three results with raw score 1.
\<close>

theorem normalize_scores_equal_counterexample:
  "map (\<lambda>r. metadata r ''semantic_score'') (normalize_scores [new_result 0 5]) = [Some 0]
   \<and> map (\<lambda>r. metadata r ''semantic_score'') (normalize_scores [new_result 0 5]) \<noteq> [Some 1]
   \<and> map (\<lambda>r. metadata r ''semantic_score'')
        (normalize_scores [new_result 0 1, new_result 1 1, new_result 2 1])
      = [Some 0, Some 0, Some 0]"
  by (simp add: new_result_def min_score_def max_score_def score_range_def)


section \<open>Blank queries: claim C2\<close>

text \<open>
  C2, as the code has it. \<^verbatim>\<open>search\<close> has no check of its own: for a blank query (empty or
  white space only), as for any other, its first action is the call of the vector
  store's search with the query and the limit \<^verbatim>\<open>top_k * 2\<close>. With either shipped store
  and the Azure embedder that call raises \<^verbatim>\<open>ValueError\<close> in \<^verbatim>\<open>embed_text\<close>, before the
  embedding service or the index is asked, and \<^verbatim>\<open>search\<close> passes the exception on. The
  keyword search returns the empty dictionary for a blank query and scans nothing.
\<close>

theorem search_blank_query:
  assumes "str_strip query = []"
  shows "fst (search config chunks store query) =
           VectorStoreSearch query (top_k config * 2) # fst (store query (top_k config * 2))
    \<and> search config chunks (qdrant_search embed_query client_search) query =
        ([VectorStoreSearch query (top_k config * 2), EmbedText query],
         Inl (ValueError ''Cannot embed empty text''))
    \<and> search config chunks (in_memory_search embed_query similarities) query =
        ([VectorStoreSearch query (top_k config * 2), EmbedText query],
         Inl (ValueError ''Cannot embed empty text''))
    \<and> keyword_search query chunks rs = ([], Inr Map.empty)"
  using assms
  by (simp add: search_events keyword_search_blank)
     (simp add: search_def qdrant_search_def in_memory_search_def embed_text_def)

text \<open>The query of two spaces, with the default configuration and the Qdrant store.\<close>

theorem search_blank_query_witness:
  "str_strip ''  '' = []
   \<and> search default_config blank_chunks (qdrant_search constant_embedding empty_index) ''  '' =
        ([VectorStoreSearch ''  '' 10, EmbedText ''  ''],
         Inl (ValueError ''Cannot embed empty text''))"
  using search_blank_query
    [of "''  ''" default_config blank_chunks "fixed_store []" constant_embedding empty_index
        "[]" "[]"]
  by (simp add: str_strip_def is_space_def default_config_def)

text \<open>
  The claim fails at the empty query. With a vector store that answers it, the search
  calls the store and returns a result instead of an error; with the Qdrant store and
  the Azure embedder, the store and the embedder have both been called when the
  exception is raised.
\<close>

theorem search_blank_query_counterexample:
  "search default_config blank_chunks (fixed_store []) [] = ([VectorStoreSearch [] 10], Inr [])
   \<and> fst (search default_config blank_chunks (qdrant_search constant_embedding empty_index) [])
       = [VectorStoreSearch [] 10, EmbedText []]"
  by (simp add: search_def fixed_store_def default_config_def keyword_search_def str_strip_def
      str_lower_def combine_results_def rerank_results_def sort_by_combined_def slice_to_def
      qdrant_search_def embed_text_def)


section \<open>Over-fetch and truncation: claim C8\<close>

text \<open>
  C8, as the code has it. Every call of \<^verbatim>\<open>search\<close> asks the vector store once, for
  exactly \<^verbatim>\<open>top_k * 2\<close> neighbours. When the call does not fail and \<^verbatim>\<open>top_k\<close> is not
  negative, at most \<^verbatim>\<open>top_k\<close> results are returned. The configuration does not
  constrain \<^verbatim>\<open>top_k\<close>; for a negative \<^verbatim>\<open>top_k\<close> the slice \<^verbatim>\<open>[:top_k]\<close> drops results from
  the end instead, and the bound does not hold.
\<close>

theorem search_overfetch_and_truncate:
  assumes "snd (search config chunks store query) = Inr results"
    and "0 \<le> top_k config"
  shows "fst (search config chunks store query) =
           VectorStoreSearch query (top_k config * 2) # fst (store query (top_k config * 2))
    \<and> int (length results) \<le> top_k config"
proof -
  have "int (length results) \<le> top_k config"
    using assms unfolding search_def
    by (auto split: prod.splits sum.splits simp: Let_def length_slice_to)
  then show ?thesis by (simp add: search_events)
qed

text \<open>
  The in-memory store with five chunks and \<^verbatim>\<open>top_k = 2\<close>: four neighbours are asked for,
  two results are returned.
\<close>

theorem search_overfetch_and_truncate_witness:
  "snd (search (default_config\<lparr>top_k := 2\<rparr>) blank_chunks
          (in_memory_search constant_embedding [0.9, 0.8, 0.7, 0.6, 0.5]) ''x'')
     = Inr (projr (snd (search (default_config\<lparr>top_k := 2\<rparr>) blank_chunks
          (in_memory_search constant_embedding [0.9, 0.8, 0.7, 0.6, 0.5]) ''x'')))
   \<and> 0 \<le> top_k (default_config\<lparr>top_k := 2\<rparr>)
   \<and> fst (search (default_config\<lparr>top_k := 2\<rparr>) blank_chunks
          (in_memory_search constant_embedding [0.9, 0.8, 0.7, 0.6, 0.5]) ''x'')
       = [VectorStoreSearch ''x'' 4, EmbedText ''x'', EmbedQuery ''x'']
   \<and> int (length (projr (snd (search (default_config\<lparr>top_k := 2\<rparr>) blank_chunks
          (in_memory_search constant_embedding [0.9, 0.8, 0.7, 0.6, 0.5]) ''x''))))
       \<le> top_k (default_config\<lparr>top_k := 2\<rparr>)"
proof -
  have ok: "snd (search (default_config\<lparr>top_k := 2\<rparr>) blank_chunks
          (in_memory_search constant_embedding [0.9, 0.8, 0.7, 0.6, 0.5]) ''x'')
     = Inr (projr (snd (search (default_config\<lparr>top_k := 2\<rparr>) blank_chunks
          (in_memory_search constant_embedding [0.9, 0.8, 0.7, 0.6, 0.5]) ''x'')))"
    by (simp add: eval_defs upt_rec)
  have k: "0 \<le> top_k (default_config\<lparr>top_k := 2\<rparr>)"
    by simp
  have ev: "fst (in_memory_search constant_embedding [0.9, 0.8, 0.7, 0.6, 0.5] ''x'' 4)
      = [EmbedText ''x'', EmbedQuery ''x'']"
    by (simp add: in_memory_search_def embed_text_def constant_embedding_def str_strip_def is_space_def)
  from search_overfetch_and_truncate [OF ok k] ok k ev show ?thesis
    by simp
qed

text \<open>
  The claim fails for \<^verbatim>\<open>top_k = -1\<close>: the in-memory store with five chunks is asked for
  \<^verbatim>\<open>-2\<close> neighbours and returns three (all but the last two), and the search returns
  two results (all but the last), more than \<^verbatim>\<open>top_k\<close>.
\<close>

theorem search_negative_top_k_counterexample:
  "(case snd (search (default_config\<lparr>top_k := - 1\<rparr>) blank_chunks
       (in_memory_search constant_embedding [0.9, 0.8, 0.7, 0.6, 0.5]) ''x'') of
     Inr results \<Rightarrow> map chunk results | Inl e \<Rightarrow> []) = [0, 1]
   \<and> \<not> int (length [0::nat, 1]) \<le> top_k (default_config\<lparr>top_k := - 1\<rparr>)"
  by (simp add: eval_defs upt_rec)


section \<open>Stable ordering: claim C9\<close>




section \<open>Context boost: claim C6\<close>

text \<open>
  C6, as the code has it. For a result whose chunk metadata has a true value under
  \<^verbatim>\<open>site_common\<close>, \<^verbatim>\<open>navigation_links\<close> or \<^verbatim>\<open>url\<close>, the context boost is \<^verbatim>\<open>0.25\<close> when the
  lower-cased query contains \<^verbatim>\<open>site\<close> or \<^verbatim>\<open>this\<close> as a substring, and \<^verbatim>\<open>0.15\<close> otherwise; it
  is never \<^verbatim>\<open>0.15 + 0.25\<close>. Reranking adds this boost and a tenth of the position boost
  to the combined score. A query that has \<^verbatim>\<open>site\<close> or \<^verbatim>\<open>this\<close> as a token of its lower-cased
  form contains it as a substring, so it gets \<^verbatim>\<open>0.25\<close>.
\<close>

theorem context_boost_replaces:
  assumes "has_site_context (chunk_metadata (chunks (chunk r)))"
  shows "site_context_boost (is_site_query query) (chunk_metadata (chunks (chunk r))) =
           (if str_contains (str_lower query) ''site'' \<or> str_contains (str_lower query) ''this''
            then 0.25 else 0.15)
    \<and> site_context_boost (is_site_query query) (chunk_metadata (chunks (chunk r))) \<noteq> 0.15 + 0.25
    \<and> combined_key (rerank_one chunks query r) =
        combined_key r
        + position_boost (remdups (str_split (str_lower query)))
            (str_lower (content (chunks (chunk r)))) * 0.1
        + site_context_boost (is_site_query query) (chunk_metadata (chunks (chunk r)))
    \<and> (''site'' \<in> set (str_split (str_lower query)) \<or> ''this'' \<in> set (str_split (str_lower query))
        \<longrightarrow> site_context_boost (is_site_query query) (chunk_metadata (chunks (chunk r))) = 0.25)"
proof -
  have tok: "''site'' \<in> set (str_split (str_lower query)) \<or> ''this'' \<in> set (str_split (str_lower query))
      \<Longrightarrow> is_site_query query"
    unfolding is_site_query_def by (auto dest: token_is_substring)
  show ?thesis
    using assms tok
    by (auto simp: site_context_boost_def combined_key_rerank_one is_site_query_def)
qed

text \<open>A chunk with navigation links and a query with both tokens.\<close>

theorem context_boost_replaces_witness:
  "has_site_context (chunk_metadata
      ((blank_chunks(0 := chunk_of ''Home page''
          [''navigation_links'' \<mapsto> PList [PStr ''/about'']])) (chunk (new_result 0 0.9))))
   \<and> site_context_boost (is_site_query ''search THIS site'')
        (chunk_metadata ((blank_chunks(0 := chunk_of ''Home page''
          [''navigation_links'' \<mapsto> PList [PStr ''/about'']])) (chunk (new_result 0 0.9))))
      = 0.25"
  using context_boost_replaces [of
      "blank_chunks(0 := chunk_of ''Home page'' [''navigation_links'' \<mapsto> PList [PStr ''/about'']])"
      "new_result 0 0.9" "''search THIS site''"]
  by (simp add: eval_defs)

text \<open>
  The claim fails for the query \<^verbatim>\<open>website\<close>: neither \<^verbatim>\<open>site\<close> nor \<^verbatim>\<open>this\<close> is a token of
  it, yet the boost of a chunk with a URL is \<^verbatim>\<open>0.25\<close> and not \<^verbatim>\<open>0.15\<close>, and reranking
  raises a combined score of \<^verbatim>\<open>0.5\<close> to \<^verbatim>\<open>0.75\<close> (the content holds no query term).
\<close>

theorem context_boost_token_counterexample:
  "''site'' \<notin> set (str_split (str_lower ''website'')) \<and> ''this'' \<notin> set (str_split (str_lower ''website''))
   \<and> has_site_context [''url'' \<mapsto> PStr ''http://a.example/'']
   \<and> site_context_boost (is_site_query ''website'') [''url'' \<mapsto> PStr ''http://a.example/''] = 0.25
   \<and> combined_key (rerank_one (blank_chunks(0 := chunk_of ''hello'' [''url'' \<mapsto> PStr ''http://a.example/'']))
        ''website'' ((new_result 0 0.9)\<lparr>metadata := [''combined_score'' \<mapsto> 0.5]\<rparr>)) = 0.75"
  by (simp add: eval_defs)


section \<open>The keyword score: claim C4\<close>

text \<open>
  C4, as the code has it. For a chunk whose file name and URL are strings (or absent)
  and any term set, the keyword score is
  \<^verbatim>\<open>0.5 * (term_matches / n) + 0.3 * min(total_term_count / (n * 5), 1.0)
  + min(metadata_matches / n, 0.3)\<close>, where \<^verbatim>\<open>n\<close> is the number of terms,
  \<^verbatim>\<open>term_matches\<close> is the number of terms that occur in the lower-cased content or in the
  metadata text (the lower-cased file name and URL), \<^verbatim>\<open>total_term_count\<close> is the sum
  over the terms of the occurrences in the content and in the metadata text, and
  \<^verbatim>\<open>metadata_matches\<close> is the number of terms that occur in the metadata text. The score
  is \<^verbatim>\<open>0.0\<close> exactly when \<^verbatim>\<open>term_matches\<close> is zero. For a term that is not empty, to occur
  is to be a substring.
\<close>

theorem keyword_score_formula:
  assumes "metadata_text (chunk_metadata c) = Inr mt"
  shows "keyword_score terms c = Inr
      (if 0 < length (filter (\<lambda>t. 0 < term_count (str_lower (content c)) mt t) terms)
       then 0.5 * (real (length (filter (\<lambda>t. 0 < term_count (str_lower (content c)) mt t) terms))
                     / real (length terms))
            + 0.3 * min (real (sum_list (map (term_count (str_lower (content c)) mt) terms))
                           / real (length terms * 5)) 1.0
            + min (real (length (filter (\<lambda>t. 0 < meta_count mt t) terms)) / real (length terms)) 0.3
       else 0.0)
    \<and> (keyword_score terms c = Inr 0 \<longleftrightarrow>
         length (filter (\<lambda>t. 0 < term_count (str_lower (content c)) mt t) terms) = 0)
    \<and> (\<forall>t\<in>set terms. t \<noteq> [] \<longrightarrow>
         (0 < term_count (str_lower (content c)) mt t \<longleftrightarrow>
            str_contains (str_lower (content c)) t \<or> str_contains mt t)
         \<and> (0 < meta_count mt t \<longleftrightarrow> str_contains mt t))"
proof -
  let ?tm = "length (filter (\<lambda>t. 0 < term_count (str_lower (content c)) mt t) terms)"
  let ?tc = "sum_list (map (term_count (str_lower (content c)) mt) terms)"
  let ?mm = "length (filter (\<lambda>t. 0 < meta_count mt t) terms)"
  have ks: "keyword_score terms c = Inr (score_of_counts (length terms) (?tm, ?tc, ?mm))"
    using assms by (simp add: keyword_score_def count_terms_closed)
  have formula: "score_of_counts (length terms) (?tm, ?tc, ?mm) =
      (if 0 < ?tm
       then 0.5 * (real ?tm / real (length terms))
            + 0.3 * min (real ?tc / real (length terms * 5)) 1.0
            + min (real ?mm / real (length terms)) 0.3
       else 0.0)"
    by (simp add: score_of_counts_def)
  have zero: "score_of_counts (length terms) (?tm, ?tc, ?mm) = 0 \<longleftrightarrow> ?tm = 0"
  proof
    assume z: "score_of_counts (length terms) (?tm, ?tc, ?mm) = 0"
    show "?tm = 0"
    proof (rule ccontr)
      assume "?tm \<noteq> 0"
      then have pos: "0 < ?tm" by simp
      have "?tm \<le> length terms" by (rule length_filter_le)
      with pos have "0 < length terms" by linarith
      with pos have "0 < score_of_counts (length terms) (?tm, ?tc, ?mm)"
        by (rule score_of_counts_pos)
      with z show False by simp
    qed
  next
    assume "?tm = 0"
    then show "score_of_counts (length terms) (?tm, ?tc, ?mm) = 0"
      by (simp add: score_of_counts_def)
  qed
  have sub: "\<forall>t\<in>set terms. t \<noteq> [] \<longrightarrow>
         (0 < term_count (str_lower (content c)) mt t \<longleftrightarrow>
            str_contains (str_lower (content c)) t \<or> str_contains mt t)
         \<and> (0 < meta_count mt t \<longleftrightarrow> str_contains mt t)"
    by (simp add: term_count_pos_iff meta_count_pos_iff)
  have first: "keyword_score terms c = Inr
      (if 0 < ?tm
       then 0.5 * (real ?tm / real (length terms))
            + 0.3 * min (real ?tc / real (length terms * 5)) 1.0
            + min (real ?mm / real (length terms)) 0.3
       else 0.0)"
    by (simp only: ks formula)
  have second: "keyword_score terms c = Inr 0 \<longleftrightarrow> ?tm = 0"
    using zero by (simp only: ks sum.inject)
  from first second sub show ?thesis by blast
qed

text \<open>The content and term set of the specification's example: the score is \<^verbatim>\<open>0.56\<close>.\<close>

theorem keyword_score_formula_witness:
  "metadata_text (chunk_metadata (chunk_of ''Download sample-3pp.pdf here'' Map.empty)) = Inr []
   \<and> keyword_score [''sample'', ''pdf'', ''sample-3pp'']
        (chunk_of ''Download sample-3pp.pdf here'' Map.empty) = Inr (14 / 25)"
proof -
  have md: "metadata_text (chunk_metadata (chunk_of ''Download sample-3pp.pdf here'' Map.empty)) = Inr []"
    by (simp add: eval_defs)
  from keyword_score_formula [OF md, of "[''sample'', ''pdf'', ''sample-3pp'']"] md
  show ?thesis
    by (simp add: eval_defs)
qed

text \<open>
  The claim fails for the query \<^verbatim>\<open>ab\<close> and a chunk with empty content and the file name
  \<^verbatim>\<open>ab\<close>: no term occurs in the content, so the claim gives \<^verbatim>\<open>0.0\<close>, and the code gives
  \<^verbatim>\<open>0.5 + 0.3 * 0.2 + 0.3 = 0.86\<close>.
\<close>

theorem keyword_score_metadata_counterexample:
  "\<not> str_contains (str_lower (content (chunk_of [] [''file_name'' \<mapsto> PStr ''ab'']))) ''ab''
   \<and> keyword_score [''ab''] (chunk_of [] [''file_name'' \<mapsto> PStr ''ab'']) = Inr (43 / 50)
   \<and> (case snd (keyword_search ''ab'' (blank_chunks(0 := chunk_of [] [''file_name'' \<mapsto> PStr ''ab'']))
                 [new_result 0 0.9]) of
         Inr keyword_scores \<Rightarrow> keyword_scores 0 | Inl e \<Rightarrow> None) = Some (43 / 50)"
  by (simp add: eval_defs)


section \<open>Scores of zero: claim C5\<close>

text \<open>
  C5, as the code has it. When the query has no term (after lower-casing, stripping and
  dropping the tokens of length at most one), the keyword search scans no chunk and
  returns the empty dictionary, and fusion gives every result the keyword score
  \<^verbatim>\<open>0.0\<close>. A chunk with empty content gets the keyword score \<^verbatim>\<open>0.0\<close> when no term occurs
  in its metadata text (the terms being not empty); its metadata does matter.
\<close>

theorem keyword_score_zero_cases:
  "(tokenize (str_strip (str_lower query)) = [] \<longrightarrow>
      keyword_search query chunks rs = ([], Inr Map.empty)
      \<and> metadata (combine_one config Map.empty r) ''keyword_score'' = Some 0)
   \<and> (content c = [] \<and> metadata_text (chunk_metadata c) = Inr mt
        \<and> (\<forall>t\<in>set terms. t \<noteq> [] \<and> \<not> str_contains mt t) \<longrightarrow>
      keyword_score terms c = Inr 0)"
proof -
  have second: "keyword_score terms c = Inr 0"
    if c: "content c = []" and md: "metadata_text (chunk_metadata c) = Inr mt"
      and no: "\<forall>t\<in>set terms. t \<noteq> [] \<and> \<not> str_contains mt t"
  proof -
    have "\<forall>t\<in>set terms. \<not> 0 < term_count (str_lower (content c)) mt t"
      using no c by (simp add: term_count_pos_iff str_lower_def)
    then have "filter (\<lambda>t. 0 < term_count (str_lower (content c)) mt t) terms = []"
      by (simp add: filter_empty_conv)
    then show ?thesis
      using md by (simp add: keyword_score_def count_terms_closed score_of_counts_def)
  qed
  show ?thesis
    using second by (simp add: keyword_search_no_terms combine_one_keyword_score)
qed

text \<open>
  The query \<^verbatim>\<open>a b c\<close> has no term; the chunk with empty content and the file name
  \<^verbatim>\<open>notes.txt\<close> scores zero for the terms \<^verbatim>\<open>ab\<close> and \<^verbatim>\<open>cd\<close>.
\<close>

theorem keyword_score_zero_cases_witness:
  "keyword_search ''a b c'' blank_chunks [new_result 0 0.9] = ([], Inr Map.empty)
   \<and> keyword_score [''ab'', ''cd''] (chunk_of [] [''file_name'' \<mapsto> PStr ''notes.txt'']) = Inr 0"
  using keyword_score_zero_cases [of "''a b c''" blank_chunks "[new_result 0 0.9]" default_config
      "new_result 0 0.9" "chunk_of [] [''file_name'' \<mapsto> PStr ''notes.txt'']" "'' notes.txt''"
      "[''ab'', ''cd'']"]
  by (simp add: eval_defs)

text \<open>
  The claim fails for a chunk with empty content whose URL contains the query term: the
  search returns it with the keyword score \<^verbatim>\<open>0.86\<close>.
\<close>

theorem empty_content_counterexample:
  "content ((blank_chunks(0 := chunk_of [] [''url'' \<mapsto> PStr ''http://x.example/ab''])) 0) = []
   \<and> (case snd (search default_config
                 (blank_chunks(0 := chunk_of [] [''url'' \<mapsto> PStr ''http://x.example/ab'']))
                 (fixed_store [new_result 0 0.9]) ''ab'') of
         Inr results \<Rightarrow> map (\<lambda>r. metadata r ''keyword_score'') results | Inl e \<Rightarrow> [])
       = [Some (43 / 50)]"
  by (simp add: eval_defs)


section \<open>Score ranges: claim C3\<close>

text \<open>
  C3, as the code has it. Every result that a call of \<^verbatim>\<open>search\<close> returns carries a
  \<^verbatim>\<open>semantic_score\<close> between 0 and 1 and a \<^verbatim>\<open>keyword_score\<close> between 0 and 1.1. The
  three parts of the keyword score are bounded by 0.5, 0.3 and 0.3, and all three bounds
  can be reached together.
\<close>

theorem search_score_ranges:
  assumes "snd (search config chunks store query) = Inr results" and "r \<in> set results"
  shows "\<exists>s k. metadata r ''semantic_score'' = Some s \<and> 0 \<le> s \<and> s \<le> 1
      \<and> metadata r ''keyword_score'' = Some k \<and> 0 \<le> k \<and> k \<le> 11 / 10"
proof -
  let ?ok = "\<lambda>r. \<exists>s k. metadata r ''semantic_score'' = Some s \<and> 0 \<le> s \<and> s \<le> 1
      \<and> metadata r ''keyword_score'' = Some k \<and> 0 \<le> k \<and> k \<le> (11 / 10 :: real)"
  from assms(1) obtain retrieved ks where
    kw: "snd (keyword_search query chunks (normalize_scores retrieved)) = Inr ks"
    and res: "results = slice_to
        (if rerank config
         then rerank_results chunks (combine_results config (normalize_scores retrieved) ks) query
         else combine_results config (normalize_scores retrieved) ks) (top_k config)"
    unfolding search_def by (auto split: prod.splits sum.splits simp: Let_def)
  have combined: "?ok x" if "x \<in> set (combine_results config (normalize_scores retrieved) ks)" for x
  proof -
    from that obtain y where y: "y \<in> set (normalize_scores retrieved)" and x: "x = combine_one config ks y"
      by (auto simp: combine_results_def set_sort_by_combined)
    from normalize_scores_value [OF y] obtain s
      where s: "metadata y ''semantic_score'' = Some s" "0 \<le> s" "s \<le> 1" by blast
    have k: "0 \<le> (case ks (chunk y) of Some v \<Rightarrow> v | None \<Rightarrow> 0)
        \<and> (case ks (chunk y) of Some v \<Rightarrow> v | None \<Rightarrow> 0) \<le> 11 / 10"
      using keyword_search_values [OF kw] by (cases "ks (chunk y)") auto
    show ?thesis
      using s k by (simp add: x combine_one_semantic combine_one_keyword_score)
  qed
  have reranked: "?ok x"
    if "x \<in> set (rerank_results chunks (combine_results config (normalize_scores retrieved) ks) query)" for x
  proof -
    from that obtain y where y: "y \<in> set (combine_results config (normalize_scores retrieved) ks)"
      and x: "x = rerank_one chunks query y"
      by (auto simp: rerank_results_def set_sort_by_combined)
    from combined [OF y] show ?thesis
      by (simp add: x rerank_one_other_keys)
  qed
  have "set results \<subseteq> set (if rerank config
         then rerank_results chunks (combine_results config (normalize_scores retrieved) ks) query
         else combine_results config (normalize_scores retrieved) ks)"
    unfolding res by (rule set_slice_to)
  with assms(2) have mem: "r \<in> set (if rerank config
         then rerank_results chunks (combine_results config (normalize_scores retrieved) ks) query
         else combine_results config (normalize_scores retrieved) ks)"
    by (rule rev_subsetD)
  show ?thesis
  proof (cases "rerank config")
    case True
    with mem have "r \<in> set (rerank_results chunks
        (combine_results config (normalize_scores retrieved) ks) query)"
      by simp
    then show ?thesis by (rule reranked)
  next
    case False
    with mem have "r \<in> set (combine_results config (normalize_scores retrieved) ks)"
      by simp
    then show ?thesis by (rule combined)
  qed
qed

text \<open>
  The pool of two chunks and the query \<^verbatim>\<open>hello\<close>: the semantic scores are 1 and 0, the
  keyword scores 0.92 and 0.
\<close>

theorem search_score_ranges_witness:
  "snd (search default_config two_chunks (fixed_store two_results) ''hello'')
     = Inr (projr (snd (search default_config two_chunks (fixed_store two_results) ''hello'')))
   \<and> map (\<lambda>r. (metadata r ''semantic_score'', metadata r ''keyword_score''))
        (projr (snd (search default_config two_chunks (fixed_store two_results) ''hello'')))
       = [(Some 1, Some (23 / 25)), (Some 0, Some 0)]
   \<and> (\<exists>s k. metadata (hd (projr (snd (search default_config two_chunks (fixed_store two_results)
                ''hello'')))) ''semantic_score'' = Some s \<and> 0 \<le> s \<and> s \<le> 1
        \<and> metadata (hd (projr (snd (search default_config two_chunks (fixed_store two_results)
                ''hello'')))) ''keyword_score'' = Some k \<and> 0 \<le> k \<and> k \<le> 11 / 10)"
proof -
  have ok: "snd (search default_config two_chunks (fixed_store two_results) ''hello'')
     = Inr (projr (snd (search default_config two_chunks (fixed_store two_results) ''hello'')))"
    by (simp add: eval_defs)
  have mem: "hd (projr (snd (search default_config two_chunks (fixed_store two_results) ''hello'')))
      \<in> set (projr (snd (search default_config two_chunks (fixed_store two_results) ''hello'')))"
    by (simp add: eval_defs)
  have vals: "map (\<lambda>r. (metadata r ''semantic_score'', metadata r ''keyword_score''))
        (projr (snd (search default_config two_chunks (fixed_store two_results) ''hello'')))
       = [(Some 1, Some (23 / 25)), (Some 0, Some 0)]"
    by (simp add: eval_defs)
  from search_score_ranges [OF ok mem] ok vals show ?thesis
    by blast
qed

text \<open>
  The claim fails for the lexical score: for the query \<^verbatim>\<open>ab\<close>, a chunk with the content
  \<^verbatim>\<open>ab ab ab ab ab\<close> and the file name \<^verbatim>\<open>ab\<close> is returned with the keyword score
  \<^verbatim>\<open>0.5 + 0.3 + 0.3 = 1.1\<close>.
\<close>

theorem keyword_score_above_one_counterexample:
  "(case snd (search default_config
                 (blank_chunks(0 := chunk_of ''ab ab ab ab ab'' [''file_name'' \<mapsto> PStr ''ab'']))
                 (fixed_store [new_result 0 0.9]) ''ab'') of
         Inr results \<Rightarrow> map (\<lambda>r. metadata r ''keyword_score'') results | Inl e \<Rightarrow> [])
       = [Some (11 / 10)]
   \<and> \<not> (11 / 10 :: real) \<le> 1"
  by (simp add: eval_defs)


section \<open>Independence of the keyword scores: claim C7\<close>

text \<open>
  C7, as the code has it. Take two runs of \<^verbatim>\<open>_keyword_search\<close> on the same query that both
  return a dictionary, and a chunk that is in both pools with the same content and the
  same metadata. If the lower-cased, stripped query does not contain \<^verbatim>\<open>pdf\<close>, or more
  generally if the two runs build the same expanded term set, the chunk has the same
  keyword score in both runs, whatever the other chunks of the two pools are.
\<close>

theorem keyword_score_independence:
  assumes "\<not> str_contains (str_strip (str_lower query)) ''pdf''
      \<or> fst (expand_terms (str_strip (str_lower query)) (tokenize (str_strip (str_lower query)))
               chunks1 rs1)
        = fst (expand_terms (str_strip (str_lower query)) (tokenize (str_strip (str_lower query)))
               chunks2 rs2)"
    and "snd (keyword_search query chunks1 rs1) = Inr ks1"
    and "snd (keyword_search query chunks2 rs2) = Inr ks2"
    and "k \<in> chunk ` set rs1" and "k \<in> chunk ` set rs2"
    and "content (chunks1 k) = content (chunks2 k)"
    and "chunk_metadata (chunks1 k) = chunk_metadata (chunks2 k)"
  shows "ks1 k = ks2 k"
proof (cases "tokenize (str_strip (str_lower query)) = []")
  case True
  have "ks1 = Map.empty"
    using assms(2) unfolding keyword_search_cases if_P [OF True] snd_conv by simp
  moreover have "ks2 = Map.empty"
    using assms(3) unfolding keyword_search_cases if_P [OF True] snd_conv by simp
  ultimately show ?thesis by simp
next
  case False
  define ql where "ql = str_strip (str_lower query)"
  define t1 where "t1 = fst (expand_terms ql (tokenize ql) chunks1 rs1)"
  define t2 where "t2 = fst (expand_terms ql (tokenize ql) chunks2 rs2)"
  have same: "t1 = t2"
  proof (cases "str_contains ql ''pdf''")
    case True
    with assms(1) show ?thesis
      unfolding t1_def t2_def ql_def by simp
  next
    case False
    show ?thesis
      unfolding t1_def t2_def expand_terms_no_pdf [OF False] fst_conv ..
  qed
  from keyword_search_at [OF False assms(2) assms(4)] obtain v1
    where v1: "keyword_score t1 (chunks1 k) = Inr v1" "ks1 k = Some v1"
    unfolding t1_def ql_def by (elim exE conjE)
  from keyword_search_at [OF False assms(3) assms(5)] obtain v2
    where v2: "keyword_score t2 (chunks2 k) = Inr v2" "ks2 k = Some v2"
    unfolding t2_def ql_def by (elim exE conjE)
  have "keyword_score t1 (chunks1 k) = keyword_score t1 (chunks2 k)"
    using assms(6) assms(7) by (rule keyword_score_cong)
  with v1(1) v2(1) same have "v1 = v2"
    by simp
  with v1(2) v2(2) show ?thesis
    by simp
qed

text \<open>
  The query \<^verbatim>\<open>hello\<close> on the pool of two chunks, and on the pool whose second chunk has
  another content and a file name: the first chunk scores 0.92 in both runs, the second 0
  in one and 0.98 in the other.
\<close>

theorem keyword_score_independence_witness:
  "projr (snd (keyword_search ''hello'' two_chunks two_results)) 0
     = projr (snd (keyword_search ''hello''
         (two_chunks(1 := chunk_of ''hello hello'' [''file_name'' \<mapsto> PStr ''hello.txt'']))
         two_results)) 0
   \<and> projr (snd (keyword_search ''hello'' two_chunks two_results)) 0 = Some (23 / 25)
   \<and> projr (snd (keyword_search ''hello'' two_chunks two_results)) 1 = Some 0
   \<and> projr (snd (keyword_search ''hello''
         (two_chunks(1 := chunk_of ''hello hello'' [''file_name'' \<mapsto> PStr ''hello.txt'']))
         two_results)) 1 = Some (49 / 50)"
proof -
  let ?chunks2 =
    "two_chunks(1 := chunk_of ''hello hello'' [''file_name'' \<mapsto> PStr ''hello.txt''])"
  have no_pdf: "\<not> str_contains (str_strip (str_lower ''hello'')) ''pdf''"
    by (simp add: eval_defs)
  have ok1: "snd (keyword_search ''hello'' two_chunks two_results)
      = Inr (projr (snd (keyword_search ''hello'' two_chunks two_results)))"
    by (simp add: eval_defs)
  have ok2: "snd (keyword_search ''hello'' ?chunks2 two_results)
      = Inr (projr (snd (keyword_search ''hello'' ?chunks2 two_results)))"
    by (simp add: eval_defs)
  have mem: "0 \<in> chunk ` set two_results"
    by (simp add: eval_defs)
  have c: "content (two_chunks 0) = content (?chunks2 0)"
    by simp
  have m: "chunk_metadata (two_chunks 0) = chunk_metadata (?chunks2 0)"
    by simp
  have eq: "projr (snd (keyword_search ''hello'' two_chunks two_results)) 0
      = projr (snd (keyword_search ''hello'' ?chunks2 two_results)) 0"
    using keyword_score_independence [OF disjI1 [OF no_pdf] ok1 ok2 mem mem c m] .
  have v0: "projr (snd (keyword_search ''hello'' two_chunks two_results)) 0 = Some (23 / 25)"
    by (simp add: eval_defs)
  have v1: "projr (snd (keyword_search ''hello'' two_chunks two_results)) 1 = Some 0"
    by (simp add: eval_defs)
  have v2: "projr (snd (keyword_search ''hello'' ?chunks2 two_results)) 1 = Some (49 / 50)"
    by (simp add: eval_defs)
  from eq v0 v1 v2 show ?thesis
    by (intro conjI)
qed

text \<open>
  The claim fails when the query contains \<^verbatim>\<open>pdf\<close>: the loop of lines 64 to 70 reads the
  content of every chunk of the pool. For the query \<^verbatim>\<open>pdf\<close> the chunk with the content
  \<^verbatim>\<open>pdf\<close> scores 0.56 beside an empty chunk and 0.28 beside a chunk with the content
  \<^verbatim>\<open>report.pdf\<close>, which adds the term \<^verbatim>\<open>report\<close> to the term set.
\<close>

theorem expansion_dependence_counterexample:
  "content ((blank_chunks(0 := chunk_of ''pdf'' Map.empty, 1 := chunk_of [] Map.empty)) 0)
     = content ((blank_chunks(0 := chunk_of ''pdf'' Map.empty,
                              1 := chunk_of ''report.pdf'' Map.empty)) 0)
   \<and> chunk_metadata ((blank_chunks(0 := chunk_of ''pdf'' Map.empty, 1 := chunk_of [] Map.empty)) 0)
     = chunk_metadata ((blank_chunks(0 := chunk_of ''pdf'' Map.empty,
                              1 := chunk_of ''report.pdf'' Map.empty)) 0)
   \<and> (case snd (keyword_search ''pdf''
                  (blank_chunks(0 := chunk_of ''pdf'' Map.empty, 1 := chunk_of [] Map.empty))
                  [new_result 0 0.9, new_result 1 0.5]) of
         Inr ks \<Rightarrow> ks 0 | Inl e \<Rightarrow> None) = Some (14 / 25)
   \<and> (case snd (keyword_search ''pdf''
                  (blank_chunks(0 := chunk_of ''pdf'' Map.empty,
                                1 := chunk_of ''report.pdf'' Map.empty))
                  [new_result 0 0.9, new_result 1 0.5]) of
         Inr ks \<Rightarrow> ks 0 | Inl e \<Rightarrow> None) = Some (7 / 25)
   \<and> (14 / 25 :: real) \<noteq> 7 / 25"
  by (simp add: eval_defs)


section \<open>Term expansion: claim C10\<close>

text \<open>
  C10, as the code has it. The expanded term set holds the query terms, the literals
  \<^verbatim>\<open>sample\<close> and \<^verbatim>\<open>sample-3pp\<close> when the lower-cased query contains \<^verbatim>\<open>sample\<close> as a
  substring, and, when it contains \<^verbatim>\<open>pdf\<close> as a substring, the literal \<^verbatim>\<open>pdf\<close> and the
  names read from the content of every chunk of the pool; nothing else is added and no
  query term is removed. Chunk contents are read only when the query contains \<^verbatim>\<open>pdf\<close>,
  and then for every result of the pool. One content gives at most three names; a name
  has more than three characters, all of the class \<^verbatim>\<open>[\w\-]\<close>, and is followed by
  \<^verbatim>\<open>.pdf\<close> in the lower-cased content.
\<close>

theorem term_expansion:
  "set (fst (expand_terms query_lower query_terms chunks semantic_results))
     = set query_terms
       \<union> (if str_contains query_lower ''sample'' then {''sample'', ''sample-3pp''} else {})
       \<union> (if str_contains query_lower ''pdf''
          then insert ''pdf''
                 (\<Union>result\<in>set semantic_results.
                    set (pdf_names (content (chunks (chunk result)))))
          else {})
   \<and> snd (expand_terms query_lower query_terms chunks semantic_results)
     = (if str_contains query_lower ''pdf'' then map chunk semantic_results else [])
   \<and> length (pdf_names content_text) \<le> 3
   \<and> (\<forall>pdf_name\<in>set (pdf_names content_text).
        3 < length pdf_name \<and> (\<forall>x\<in>set pdf_name. name_char x)
        \<and> str_contains (str_lower content_text) (pdf_name @ ''.pdf''))"
proof (intro conjI ballI)
  show "set (fst (expand_terms query_lower query_terms chunks semantic_results))
     = set query_terms
       \<union> (if str_contains query_lower ''sample'' then {''sample'', ''sample-3pp''} else {})
       \<union> (if str_contains query_lower ''pdf''
          then insert ''pdf''
                 (\<Union>result\<in>set semantic_results.
                    set (pdf_names (content (chunks (chunk result)))))
          else {})"
    by (auto simp: expand_terms_def Let_def scan_results_fst set_add_def)
  show "snd (expand_terms query_lower query_terms chunks semantic_results)
     = (if str_contains query_lower ''pdf'' then map chunk semantic_results else [])"
    by (simp add: expand_terms_def Let_def scan_results_snd)
  show "length (pdf_names content_text) \<le> 3"
    by (rule length_pdf_names)
next
  fix pdf_name
  assume "pdf_name \<in> set (pdf_names content_text)"
  from pdf_names_shape [OF this]
  show "3 < length pdf_name" and "\<And>x. x \<in> set pdf_name \<Longrightarrow> name_char x"
    and "str_contains (str_lower content_text) (pdf_name @ ''.pdf'')"
    by simp_all
qed

text \<open>
  The query \<^verbatim>\<open>sample pdf\<close> on two chunks that name PDF files: the second content has four
  references, of which the first three are read and \<^verbatim>\<open>a\<close> is too short to be kept.
\<close>

theorem term_expansion_witness:
  "set (fst (expand_terms ''sample pdf'' (tokenize ''sample pdf'') report_chunks two_results))
     = {''sample'', ''pdf'', ''sample-3pp'', ''report_2024'', ''one1''}
   \<and> snd (expand_terms ''sample pdf'' (tokenize ''sample pdf'') report_chunks two_results) = [0, 1]
   \<and> pdf_names (content (report_chunks 1)) = [''report_2024'', ''one1'']
   \<and> length (pdf_names (content (report_chunks 1))) \<le> 3
   \<and> 3 < length ''report_2024''
   \<and> str_contains (str_lower (content (report_chunks 1))) (''report_2024'' @ ''.pdf'')"
proof -
  note expansion = term_expansion [of "''sample pdf''" "tokenize ''sample pdf''" report_chunks
      two_results "content (report_chunks 1)"]
  have names: "pdf_names (content (report_chunks 1)) = [''report_2024'', ''one1'']"
    by (simp add: eval_defs report_chunks_def)
  then have mem: "''report_2024'' \<in> set (pdf_names (content (report_chunks 1)))"
    by simp
  from expansion have bound: "length (pdf_names (content (report_chunks 1))) \<le> 3"
    by (elim conjE)
  from expansion have "\<forall>pdf_name\<in>set (pdf_names (content (report_chunks 1))).
        3 < length pdf_name \<and> (\<forall>x\<in>set pdf_name. name_char x)
        \<and> str_contains (str_lower (content (report_chunks 1))) (pdf_name @ ''.pdf'')"
    by (elim conjE)
  from bspec [OF this mem] have shape: "3 < length ''report_2024''
      \<and> str_contains (str_lower (content (report_chunks 1))) (''report_2024'' @ ''.pdf'')"
    by (elim conjE) (rule conjI)
  have terms: "set (fst (expand_terms ''sample pdf'' (tokenize ''sample pdf'') report_chunks
        two_results)) = {''sample'', ''pdf'', ''sample-3pp'', ''report_2024'', ''one1''}"
    by (simp add: eval_defs report_chunks_def)
  have scanned: "snd (expand_terms ''sample pdf'' (tokenize ''sample pdf'') report_chunks
        two_results) = [0, 1]"
    by (simp add: eval_defs report_chunks_def)
  from terms scanned names bound shape show ?thesis
    by (intro conjI) (elim conjE, assumption)+
qed

text \<open>
  The claim fails for the added literals: for the query \<^verbatim>\<open>sample\<close> the term
  \<^verbatim>\<open>sample-3pp\<close> is added, which is not a query term and occurs in the content of no
  chunk of the pool.
\<close>

theorem added_literal_counterexample:
  "tokenize (str_strip (str_lower ''sample'')) = [''sample'']
   \<and> set (fst (expand_terms (str_strip (str_lower ''sample''))
               (tokenize (str_strip (str_lower ''sample''))) two_chunks two_results))
     = {''sample'', ''sample-3pp''}
   \<and> map (\<lambda>result. str_contains (str_lower (content (two_chunks (chunk result)))) ''sample-3pp'')
       two_results = [False, False]
   \<and> map (\<lambda>result. str_contains (content (two_chunks (chunk result))) ''sample-3pp'')
       two_results = [False, False]"
  by (simp add: eval_defs)

end
